theory Spec2Isabelle
  imports Complex_Main "HOL-Library.Word" "HOL-Library.Sublist" "HOL-Library.Log_Nat"
begin

section \<open>JavaScript values\<close>

text \<open>
  A JavaScript string is a sequence of 16-bit code units. String literals of the source
  are ASCII and are written \<open>lit ''...''\<close>.
\<close>

type_synonym jschar = "16 word"
type_synonym jsstring = "jschar list"

definition lit :: "string \<Rightarrow> jsstring" where
  "lit s = map of_char s"

text \<open>
  Numbers are IEEE doubles. Of the numbers inside JSON values the handler only ever asks
  whether they are truthy, so a finite double is represented there by the real it denotes
  (both zeros by \<open>0\<close>).
\<close>

datatype jsnumber = NaN | PosInfinity | NegInfinity | NumFinite real

text \<open>
  The values that JSON parsing and the handler's own variables can hold. An object is the
  list of its own properties (keys distinct); no value is a function.
\<close>

datatype jsval =
    JUndefined
  | JNull
  | JBool bool
  | JNum jsnumber
  | JStr jsstring
  | JArr "jsval list"
  | JObj "(jsstring \<times> jsval) list"

text \<open>ToBoolean, as used by \<open>!content\<close> and \<open>!aiContent\<close>.\<close>

fun truthy :: "jsval \<Rightarrow> bool" where
  "truthy JUndefined = False"
| "truthy JNull = False"
| "truthy (JBool b) = b"
| "truthy (JNum NaN) = False"
| "truthy (JNum PosInfinity) = True"
| "truthy (JNum NegInfinity) = True"
| "truthy (JNum (NumFinite x)) = (x \<noteq> 0)"
| "truthy (JStr s) = (s \<noteq> [])"
| "truthy (JArr xs) = True"
| "truthy (JObj kvs) = True"

fun is_string :: "jsval \<Rightarrow> bool" where
  "is_string (JStr s) = True"
| "is_string v = False"

fun nullish :: "jsval \<Rightarrow> bool" where
  "nullish JUndefined = True"
| "nullish JNull = True"
| "nullish v = False"

text \<open>
  Reading a named property (\<open>v.candidates\<close>, \<open>v.content\<close>, \<open>v.parts\<close>, \<open>v.text\<close>) of a
  value that is neither \<open>undefined\<close> nor \<open>null\<close>. None of these names is a property of a
  built-in prototype, so only an object's own property can answer.
\<close>

fun get_named :: "jsval \<Rightarrow> jsstring \<Rightarrow> jsval" where
  "get_named (JObj kvs) k = (case map_of kvs k of Some v \<Rightarrow> v | None \<Rightarrow> JUndefined)"
| "get_named v k = JUndefined"

text \<open>
  Reading \<open>v[0]\<close> of such a value: the first element of an array, the first code unit of a
  string, the own property \<open>"0"\<close> of an object.
\<close>

fun get_index0 :: "jsval \<Rightarrow> jsval" where
  "get_index0 (JArr xs) = (case xs of [] \<Rightarrow> JUndefined | x # _ \<Rightarrow> x)"
| "get_index0 (JStr s) = (case s of [] \<Rightarrow> JUndefined | c # _ \<Rightarrow> JStr [c])"
| "get_index0 (JObj kvs) = (case map_of kvs (lit ''0'') of Some v \<Rightarrow> v | None \<Rightarrow> JUndefined)"
| "get_index0 v = JUndefined"

text \<open>The optional accesses \<open>v?.name\<close> and \<open>v?.[0]\<close>.\<close>

definition opt_named :: "jsval \<Rightarrow> jsstring \<Rightarrow> jsval" where
  "opt_named v k = (if nullish v then JUndefined else get_named v k)"

definition opt_index0 :: "jsval \<Rightarrow> jsval" where
  "opt_index0 v = (if nullish v then JUndefined else get_index0 v)"

text \<open>\<open>String.prototype.includes\<close> with one argument: substring search on code units.\<close>

fun js_includes :: "jsstring \<Rightarrow> jsstring \<Rightarrow> bool" where
  "js_includes [] t = (t = [])"
| "js_includes (c # cs) t = (prefix t (c # cs) \<or> js_includes cs t)"

text \<open>
  \<open>String.prototype.trim\<close>: strips the code units that are WhiteSpace or LineTerminator
  (all of them lie in the Basic Multilingual Plane) from both ends.
\<close>

definition is_js_space :: "jschar \<Rightarrow> bool" where
  "is_js_space c =
     (c = 0x0009 \<or> c = 0x000A \<or> c = 0x000B \<or> c = 0x000C \<or> c = 0x000D \<or> c = 0x0020
      \<or> c = 0x00A0 \<or> c = 0x1680 \<or> (0x2000 \<le> c \<and> c \<le> 0x200A) \<or> c = 0x2028 \<or> c = 0x2029
      \<or> c = 0x202F \<or> c = 0x205F \<or> c = 0x3000 \<or> c = 0xFEFF)"

definition js_trim :: "jsstring \<Rightarrow> jsstring" where
  "js_trim s = rev (dropWhile is_js_space (rev (dropWhile is_js_space s)))"

text \<open>The decimal text of a non-negative integer, as a template literal prints it.\<close>

definition digit :: "nat \<Rightarrow> jschar" where
  "digit d = of_nat (48 + d)"

fun dec :: "nat \<Rightarrow> jsstring" where
  "dec n = (if n < 10 then [digit n] else dec (n div 10) @ [digit (n mod 10)])"

declare dec.simps [simp del]

section \<open>Double arithmetic\<close>

text \<open>
  The delay of the retry loop is computed in IEEE 754 binary64 arithmetic. A finite double
  is represented by the real it denotes, and an operation returns the exact result
  rounded to the nearest double, ties to the even significand. \<open>exponent x\<close> is the
  binary exponent of \<open>x\<close>, not below that of the subnormal numbers; \<open>ulp x\<close> is the
  distance between neighbouring doubles at \<open>x\<close> (53 bits of significand). Results of
  magnitude \<open>2 ^ 1024\<close> and more, which round to an infinity, do not occur: the operands
  of the loop are at most \<open>2 ^ 3\<close>, 1000 and 500.
\<close>

fun halvings :: "nat \<Rightarrow> real \<Rightarrow> nat" where
  "halvings 0 x = 0"
| "halvings (Suc n) x = (if 1 \<le> x then 0 else Suc (halvings n (2 * x)))"

definition exponent :: "real \<Rightarrow> int" where
  "exponent x =
     (if 1 \<le> \<bar>x\<bar> then int (floorlog 2 (nat \<lfloor>\<bar>x\<bar>\<rfloor>)) - 1 else - int (halvings 1022 \<bar>x\<bar>))"

definition ulp :: "real \<Rightarrow> real" where
  "ulp x = 2 powi (exponent x - 52)"

definition round_half_even :: "real \<Rightarrow> int" where
  "round_half_even q =
     (let f = \<lfloor>q\<rfloor> in
      if q - of_int f < 1 / 2 then f
      else if 1 / 2 < q - of_int f then f + 1
      else if even f then f else f + 1)"

text \<open>Rounding a real to the nearest double.\<close>

definition fl :: "real \<Rightarrow> real" where
  "fl x = (if x = 0 then 0 else ulp x * of_int (round_half_even (x / ulp x)))"

text \<open>The operators \<open>*\<close> and \<open>+\<close> on doubles, and what it is to be a double.\<close>

definition fmul :: "real \<Rightarrow> real \<Rightarrow> real" where
  "fmul x y = fl (x * y)"

definition fadd :: "real \<Rightarrow> real \<Rightarrow> real" where
  "fadd x y = fl (x + y)"

definition is_double :: "real \<Rightarrow> bool" where
  "is_double x = (fl x = x)"

section \<open>Errors and the environment\<close>

datatype err_class = ErrorC | TypeErrorC | SyntaxErrorC | OtherErrorC jsstring

datatype js_error = JsError (err_class: err_class) (message: jsstring)

text \<open>
  What the handler reads of a fetch \<open>Response\<close>: the status, and what \<open>text()\<close> and
  \<open>json()\<close> resolve to (either may reject). \<open>response.ok\<close> is a status in 200..299.
\<close>

record response =
  status :: nat
  body_text :: "js_error + jsstring"
  body_json :: "js_error + jsval"

definition ok :: "response \<Rightarrow> bool" where
  "ok r = (200 \<le> status r \<and> status r \<le> 299)"

text \<open>
  A stored message. The role is one of the two string constants the handler writes.
\<close>

datatype role = RUser | RAssistant

record message =
  msg_userId :: jsval
  msg_role :: role
  msg_content :: jsval
  createdAt :: nat

text \<open>
  Everything outside the handler: the \<open>i\<close>-th \<open>fetch\<close> call's outcome for a given URL and
  request body, the double \<open>Math.random()\<close> returns in iteration \<open>i\<close>, \<open>JSON.stringify\<close>,
  the configured key, the runtime's TypeError texts, and the message store (whether its
  \<open>k\<close>-th \<open>create\<close> of the turn fails, and the timestamp it assigns).
\<close>

record env =
  fetch :: "jsstring \<Rightarrow> jsstring \<Rightarrow> nat \<Rightarrow> js_error + response"
  random :: "nat \<Rightarrow> real"
  stringify :: "jsval \<Rightarrow> jsstring"
  GEMINI_API_KEY :: "jsstring option"
  null_property_message :: jsstring
  not_a_function_message :: jsstring
  destructure_message :: jsstring
  create_failure :: "nat \<Rightarrow> js_error option"
  store_clock :: "nat \<Rightarrow> nat"

text \<open>The effects of a run, in the order they happen.\<close>

datatype event =
    Fetch nat
  | Wait real
  | Created message
  | CreateFailed js_error
  | CompletionReturned jsval
  | CompletionThrew js_error
  | ConsoleError js_error

section \<open>callGeminiAPI\<close>

definition GEMINI_API_URL :: jsstring where
  "GEMINI_API_URL = lit ''https://generativelanguage.googleapis.com/v1beta/models/gemini-2.5-flash-preview-09-2025:generateContent''"

definition MAX_RETRIES :: nat where
  "MAX_RETRIES = 5"

text \<open>\<open>process.env.GEMINI_API_KEY || ""\<close>\<close>

definition apiKey :: "env \<Rightarrow> jsstring" where
  "apiKey env = (case GEMINI_API_KEY env of None \<Rightarrow> [] | Some k \<Rightarrow> k)"

definition url :: "env \<Rightarrow> jsstring" where
  "url env = GEMINI_API_URL @ lit ''?key='' @ apiKey env"

text \<open>The outcome of the \<open>fetch\<close> call of iteration \<open>i\<close>.\<close>

definition attempt :: "env \<Rightarrow> jsval \<Rightarrow> nat \<Rightarrow> js_error + response" where
  "attempt env payload i = fetch env (url env) (stringify env payload) i"

definition retryable_status :: "nat \<Rightarrow> bool" where
  "retryable_status s = (s = 429 \<or> (500 \<le> s \<and> s < 600))"

text \<open>The three errors the function constructs inside the loop, and the one after it.\<close>

definition retries_exhausted_error :: "nat \<Rightarrow> jsstring \<Rightarrow> js_error" where
  "retries_exhausted_error s errorText =
     JsError ErrorC (lit ''Gemini API call failed after '' @ dec MAX_RETRIES
       @ lit '' attempts. Status: '' @ dec s @ lit ''. Body: '' @ errorText)"

definition client_error :: "nat \<Rightarrow> jsstring \<Rightarrow> js_error" where
  "client_error s errorBody =
     JsError ErrorC (lit ''Gemini API Client Error: '' @ dec s @ lit '' - '' @ errorBody)"

definition content_missing_error :: js_error where
  "content_missing_error =
     JsError ErrorC (lit ''Gemini API response successful but generated content text is missing or was blocked.'')"

definition fallback_error :: js_error where
  "fallback_error = JsError ErrorC (lit ''Failed to get response from Gemini API.'')"

text \<open>
  \<open>result.candidates?.[0]?.content?.parts?.[0]?.text\<close>. The first access is not
  optional: it throws a TypeError when \<open>result\<close> is \<open>null\<close>.
\<close>

definition extract_text :: "env \<Rightarrow> jsval \<Rightarrow> js_error + jsval" where
  "extract_text env result =
     (if nullish result then Inl (JsError TypeErrorC (null_property_message env))
      else Inr (opt_named (opt_index0 (opt_named (opt_named (opt_index0
             (get_named result (lit ''candidates''))) (lit ''content'')) (lit ''parts'')))
             (lit ''text'')))"

text \<open>How a block of the loop ends: it goes on to the next iteration, returns, or throws.\<close>

datatype exit = Next | Return jsval | Throw js_error

text \<open>
  The \<open>try\<close> block of iteration \<open>i\<close>, with the effects it performs. The delay is
  \<open>Math.pow(2, i) * 1000 + Math.random() * 500\<close> in double arithmetic; \<open>Math.pow(2, i)\<close>
  is the double \<open>2 ^ i\<close>.
\<close>

definition try_block :: "env \<Rightarrow> jsval \<Rightarrow> nat \<Rightarrow> exit \<times> event list" where
  "try_block env payload i =
     (case attempt env payload i of
        Inl e \<Rightarrow> (Throw e, [Fetch i])
      | Inr response \<Rightarrow>
          if retryable_status (status response) then
            if i < MAX_RETRIES - 1 then
              (let delay = fadd (fmul (2 ^ i) 1000) (fmul (random env i) 500)
               in (Next, [Fetch i, Wait delay]))
            else
              (case body_text response of
                 Inl e \<Rightarrow> (Throw e, [Fetch i])
               | Inr errorText \<Rightarrow>
                   (Throw (retries_exhausted_error (status response) errorText), [Fetch i]))
          else if \<not> ok response then
            (case body_json response of
               Inl e \<Rightarrow> (Throw e, [Fetch i])
             | Inr errorBody \<Rightarrow>
                 (Throw (client_error (status response) (stringify env errorBody)), [Fetch i]))
          else
            (case body_json response of
               Inl e \<Rightarrow> (Throw e, [Fetch i])
             | Inr result \<Rightarrow>
                 (case extract_text env result of
                    Inl e \<Rightarrow> (Throw e, [Fetch i])
                  | Inr aiContent \<Rightarrow>
                      if \<not> truthy aiContent then (Throw content_missing_error, [Fetch i])
                      else (Return aiContent, [Fetch i]))))"

text \<open>
  One iteration: the \<open>try\<close> block and its \<open>catch\<close>, which rethrows only in the last
  iteration and otherwise lets the loop go on.
\<close>

definition iteration :: "env \<Rightarrow> jsval \<Rightarrow> nat \<Rightarrow> exit \<times> event list" where
  "iteration env payload i =
     (case try_block env payload i of
        (Throw error, tr) \<Rightarrow> if i = MAX_RETRIES - 1 then (Throw error, tr) else (Next, tr)
      | (x, tr) \<Rightarrow> (x, tr))"

text \<open>The \<open>for\<close> loop from index \<open>i\<close>; \<open>Next\<close> means the loop ran to its end.\<close>

function for_loop :: "env \<Rightarrow> jsval \<Rightarrow> nat \<Rightarrow> exit \<times> event list" where
  "for_loop env payload i =
     (if i < MAX_RETRIES then
        (case iteration env payload i of
           (Next, tr) \<Rightarrow> (case for_loop env payload (Suc i) of (x, tr') \<Rightarrow> (x, tr @ tr'))
         | (x, tr) \<Rightarrow> (x, tr))
      else (Next, []))"
  by pat_completeness auto
termination
  by (relation "measure (\<lambda>(env, payload, i). MAX_RETRIES - i)") auto

declare for_loop.simps [simp del]

definition callGeminiAPI :: "env \<Rightarrow> jsval \<Rightarrow> (js_error + jsval) \<times> event list" where
  "callGeminiAPI env payload =
     (case for_loop env payload 0 of
        (Return aiContent, tr) \<Rightarrow> (Inr aiContent, tr)
      | (Throw error, tr) \<Rightarrow> (Inl error, tr)
      | (Next, tr) \<Rightarrow> (Inl fallback_error, tr))"

section \<open>The message store\<close>

text \<open>
  Modelled from the spec: the model file that defines \<open>Promt\<close> is not part of the sources.
  The specification describes the store as \<open>create(userId, role, content) -> Message\<close>,
  whose failures propagate, and a Message as user identifier, role, content and a creation
  timestamp assigned by the store. A successful \<open>create\<close> appends the message; a failed one
  leaves the store as it was. \<open>k\<close> counts the \<open>create\<close> calls of the turn.
\<close>

definition Promt_create ::
  "env \<Rightarrow> nat \<Rightarrow> message list \<Rightarrow> jsval \<Rightarrow> role \<Rightarrow> jsval \<Rightarrow> js_error + (message \<times> message list)" where
  "Promt_create env k db uid r c =
     (case create_failure env k of
        Some e \<Rightarrow> Inl e
      | None \<Rightarrow>
          (let m = \<lparr>msg_userId = uid, msg_role = r, msg_content = c, createdAt = store_clock env k\<rparr>
           in Inr (m, db @ [m])))"

section \<open>sendPromt\<close>

text \<open>
  The request as the handler reads it: \<open>req.body\<close>, which is \<open>JUndefined\<close> when no body was
  parsed, and \<open>req.userId\<close>.
\<close>

record request =
  body :: jsval
  userId :: jsval

text \<open>
  \<open>const { content } = req.body\<close>: destructuring \<open>undefined\<close> or \<open>null\<close> throws a TypeError;
  of any other value it reads the property \<open>content\<close>.
\<close>

definition destructure_content :: "env \<Rightarrow> jsval \<Rightarrow> js_error + jsval" where
  "destructure_content env b =
     (if nullish b then Inl (JsError TypeErrorC (destructure_message env))
      else Inr (get_named b (lit ''content'')))"

text \<open>The content a request carries: the property \<open>content\<close> of its body.\<close>

definition body_content :: "request \<Rightarrow> jsval" where
  "body_content req = get_named (body req) (lit ''content'')"

datatype http_response = HttpResponse (http_status: nat) (http_body: jsval)

text \<open>
  The handler either sends a response, or its promise rejects with nothing sent.
\<close>

datatype handler_outcome = Responded http_response | Rejected js_error

record turn =
  outcome :: handler_outcome
  store :: "message list"
  trace :: "event list"

text \<open>
  \<open>content.trim()\<close> for a truthy \<open>content\<close>: only a string has a \<open>trim\<close> method; for any
  other value \<open>content.trim\<close> is not a function and the call throws a TypeError.
\<close>

definition call_trim :: "env \<Rightarrow> jsval \<Rightarrow> js_error + jsstring" where
  "call_trim env content =
     (case content of
        JStr s \<Rightarrow> Inr (js_trim s)
      | _ \<Rightarrow> Inl (JsError TypeErrorC (not_a_function_message env)))"

definition validation_response :: http_response where
  "validation_response =
     HttpResponse 400 (JObj [(lit ''errors'', JStr (lit ''Promt content is required''))])"

definition make_payload :: "jsval \<Rightarrow> jsval" where
  "make_payload content =
     JObj [(lit ''contents'', JArr [JObj [(lit ''parts'', JArr [JObj [(lit ''text'', content)]])]])]"

text \<open>The \<open>try\<close> block of the handler: its result, the store and the effects.\<close>

definition handler_try ::
  "env \<Rightarrow> message list \<Rightarrow> jsval \<Rightarrow> jsval \<Rightarrow> (js_error + http_response) \<times> message list \<times> event list" where
  "handler_try env db content uid =
     (case Promt_create env 0 db uid RUser content of
        Inl e \<Rightarrow> (Inl e, db, [CreateFailed e])
      | Inr (userPromt, db1) \<Rightarrow>
          (let payload = make_payload content in
           case callGeminiAPI env payload of
             (Inl e, tr) \<Rightarrow> (Inl e, db1, Created userPromt # tr @ [CompletionThrew e])
           | (Inr aiContent, tr) \<Rightarrow>
               (case Promt_create env 1 db1 uid RAssistant aiContent of
                  Inl e \<Rightarrow>
                    (Inl e, db1,
                     Created userPromt # tr @ [CompletionReturned aiContent, CreateFailed e])
                | Inr (aiMessage, db2) \<Rightarrow>
                    (Inr (HttpResponse 200 (JObj [(lit ''reply'', aiContent)])), db2,
                     Created userPromt # tr @ [CompletionReturned aiContent, Created aiMessage]))))"

definition generic_message :: jsstring where
  "generic_message = lit ''Something went wrong with the AI response.''"

text \<open>The \<open>catch\<close> block: the message it puts into the 500 response.\<close>

definition errorMessage :: "js_error \<Rightarrow> jsstring" where
  "errorMessage error =
     (if js_includes (message error) (lit ''Gemini API'') then message error else generic_message)"

definition server_error_response :: "js_error \<Rightarrow> http_response" where
  "server_error_response error =
     HttpResponse 500 (JObj [(lit ''error'', JStr (errorMessage error))])"

definition sendPromt :: "env \<Rightarrow> message list \<Rightarrow> request \<Rightarrow> turn" where
  "sendPromt env db req =
     (case destructure_content env (body req) of
        Inl e \<Rightarrow> \<lparr>outcome = Rejected e, store = db, trace = []\<rparr>
      | Inr content \<Rightarrow>
          (let uid = userId req in
           if \<not> truthy content then
             \<lparr>outcome = Responded validation_response, store = db, trace = []\<rparr>
           else
             (case call_trim env content of
                Inl e \<Rightarrow> \<lparr>outcome = Rejected e, store = db, trace = []\<rparr>
              | Inr trimmed \<Rightarrow>
                  if trimmed = [] then
                    \<lparr>outcome = Responded validation_response, store = db, trace = []\<rparr>
                  else
                    (case handler_try env db content uid of
                       (Inr res, db', tr) \<Rightarrow>
                         \<lparr>outcome = Responded res, store = db', trace = tr\<rparr>
                     | (Inl error, db', tr) \<Rightarrow>
                         \<lparr>outcome = Responded (server_error_response error), store = db',
                          trace = tr @ [ConsoleError error]\<rparr>))))"

section \<open>Observing a run\<close>

text \<open>
  The attempts of a run are its \<open>fetch\<close> calls. An attempt's outcome is retryable by status
  when it is a response with status 429 or 5xx; it is transient when it is that or a
  failure of the \<open>fetch\<close> call itself.
\<close>

fun is_fetch :: "event \<Rightarrow> bool" where
  "is_fetch (Fetch i) = True"
| "is_fetch ev = False"

fun is_wait :: "event \<Rightarrow> bool" where
  "is_wait (Wait d) = True"
| "is_wait ev = False"

fun is_created :: "event \<Rightarrow> bool" where
  "is_created (Created m) = True"
| "is_created ev = False"

fun delay_of :: "event \<Rightarrow> real" where
  "delay_of (Wait d) = d"
| "delay_of ev = 0"

definition total_wait :: "event list \<Rightarrow> real" where
  "total_wait tr = sum_list (map delay_of tr)"

definition attempts :: "event list \<Rightarrow> nat" where
  "attempts tr = length (filter is_fetch tr)"

fun retryable_response :: "js_error + response \<Rightarrow> bool" where
  "retryable_response (Inr r) = retryable_status (status r)"
| "retryable_response (Inl e) = False"

fun transient :: "js_error + response \<Rightarrow> bool" where
  "transient (Inr r) = retryable_status (status r)"
| "transient (Inl e) = True"

definition all_transient :: "env \<Rightarrow> jsval \<Rightarrow> bool" where
  "all_transient env payload = list_all (\<lambda>i. transient (attempt env payload i)) [0..<MAX_RETRIES]"

text \<open>The delay computed in iteration \<open>i\<close>.\<close>

definition backoff_delay :: "env \<Rightarrow> nat \<Rightarrow> real" where
  "backoff_delay env i = fadd (fmul (2 ^ i) 1000) (fmul (random env i) 500)"

text \<open>
  The effects a run of \<open>n\<close> attempts is expected to show from attempt \<open>i\<close> on: each attempt
  \<open>k\<close>, followed by one wait of \<open>backoff_delay env k\<close> exactly when its outcome is retryable
  by status and another attempt follows.
\<close>

definition wait_after :: "env \<Rightarrow> jsval \<Rightarrow> nat \<Rightarrow> nat \<Rightarrow> event list" where
  "wait_after env payload n k =
     (if retryable_response (attempt env payload k) \<and> Suc k < n
      then [Wait (backoff_delay env k)] else [])"

definition schedule :: "env \<Rightarrow> jsval \<Rightarrow> nat \<Rightarrow> nat \<Rightarrow> event list" where
  "schedule env payload i n = concat (map (\<lambda>k. Fetch k # wait_after env payload n k) [i..<n])"

text \<open>
  What the last iteration throws when every attempt was transient: the \<open>fetch\<close> failure
  itself, or the failure to read the body, or the error built from status and body.
\<close>

definition last_attempt_error :: "env \<Rightarrow> jsval \<Rightarrow> js_error" where
  "last_attempt_error env payload =
     (case attempt env payload (MAX_RETRIES - 1) of
        Inl e \<Rightarrow> e
      | Inr r \<Rightarrow>
          (case body_text r of
             Inl e \<Rightarrow> e
           | Inr errorText \<Rightarrow> retries_exhausted_error (status r) errorText))"

section \<open>Concrete environments\<close>

text \<open>
  Responses and environments used to run the model on concrete inputs. The stand-in for
  \<open>JSON.stringify\<close> is right on the empty object, the only error body that occurs here.
\<close>

definition network_error :: js_error where
  "network_error = JsError TypeErrorC (lit ''fetch failed'')"

definition generated :: jsval where
  "generated =
     JObj [(lit ''candidates'',
       JArr [JObj [(lit ''content'',
         JObj [(lit ''parts'', JArr [JObj [(lit ''text'', JStr (lit ''hi''))]])])]])]"

definition ok_response :: response where
  "ok_response =
     \<lparr>status = 200, body_text = Inr (lit ''(generated)''), body_json = Inr generated\<rparr>"

definition empty_ok_response :: response where
  "empty_ok_response = \<lparr>status = 200, body_text = Inr (lit ''{}''), body_json = Inr (JObj [])\<rparr>"

definition bad_request :: response where
  "bad_request = \<lparr>status = 400, body_text = Inr (lit ''{}''), body_json = Inr (JObj [])\<rparr>"

definition too_many_requests :: response where
  "too_many_requests =
     \<lparr>status = 429, body_text = Inr (lit ''busy''),
      body_json = Inl (JsError SyntaxErrorC (lit ''Unexpected token''))\<rparr>"

definition storage_error :: js_error where
  "storage_error = JsError (OtherErrorC (lit ''MongoNetworkError'')) (lit ''connection lost'')"

text \<open>
  The environment in which the \<open>i\<close>-th fetch has the \<open>i\<close>-th outcome of a script (and fails
  in transport past its end), and the \<open>k\<close>-th \<open>create\<close> fails as \<open>fails k\<close> says.
\<close>

definition scripted :: "(js_error + response) list \<Rightarrow> (nat \<Rightarrow> js_error option) \<Rightarrow> env" where
  "scripted outcomes fails =
     \<lparr>fetch = (\<lambda>u b i. if i < length outcomes then outcomes ! i else Inl network_error),
      random = (\<lambda>i. 1 / 2),
      stringify = (\<lambda>v. lit ''{}''),
      GEMINI_API_KEY = Some (lit ''key''),
      null_property_message = lit ''Cannot read properties of null'',
      not_a_function_message = lit ''content.trim is not a function'',
      destructure_message = lit ''Cannot destructure property content of req.body'',
      create_failure = fails,
      store_clock = (\<lambda>k. 100 + k)\<rparr>"

definition no_failure :: "nat \<Rightarrow> js_error option" where
  "no_failure k = None"

definition second_create_fails :: "nat \<Rightarrow> js_error option" where
  "second_create_fails k = (if k = 1 then Some storage_error else None)"

definition hello :: jsval where
  "hello = JStr (lit ''hello'')"

definition hello_request :: request where
  "hello_request = \<lparr>body = JObj [(lit ''content'', hello)], userId = JStr (lit ''u1'')\<rparr>"

definition blank_request :: request where
  "blank_request =
     \<lparr>body = JObj [(lit ''content'', JStr (lit ''  ''))], userId = JStr (lit ''u1'')\<rparr>"

definition number_request :: request where
  "number_request =
     \<lparr>body = JObj [(lit ''content'', JNum (NumFinite 5))], userId = JStr (lit ''u1'')\<rparr>"

definition no_body_request :: request where
  "no_body_request = \<lparr>body = JUndefined, userId = JStr (lit ''u1'')\<rparr>"

definition always_busy :: "(js_error + response) list" where
  "always_busy = [Inr too_many_requests, Inr too_many_requests, Inr too_many_requests,
                  Inr too_many_requests, Inr too_many_requests]"

definition busy_then_ok :: "(js_error + response) list" where
  "busy_then_ok = [Inr too_many_requests, Inr too_many_requests, Inr too_many_requests,
                   Inr too_many_requests, Inr ok_response]"



section \<open>Strings\<close>

lemma lit_Nil_iff [simp]: "(lit s = []) = (s = [])"
  by (simp add: lit_def)

lemma lit_append: "lit (s @ t) = lit s @ lit t"
  by (simp add: lit_def)

section \<open>Double arithmetic\<close>

lemma round_half_even_upper: "real_of_int (round_half_even q) \<le> q + 1 / 2"
  unfolding round_half_even_def Let_def by (auto; linarith)

lemma round_half_even_lower: "q - 1 / 2 \<le> real_of_int (round_half_even q)"
  unfolding round_half_even_def Let_def by (auto; linarith)

lemma round_half_even_le_int: "q \<le> of_int N \<Longrightarrow> round_half_even q \<le> N"
proof -
  assume le: "q \<le> of_int N"
  then have f: "\<lfloor>q\<rfloor> \<le> N" by (simp add: floor_le_iff) 
  show ?thesis
  proof (cases "q = of_int N")
    case True
    then show ?thesis by (simp add: round_half_even_def)
  next
    case False
    with le have "q < of_int N" by simp
    then have "\<lfloor>q\<rfloor> < N" by (simp add: floor_less_iff)
    then show ?thesis unfolding round_half_even_def Let_def by auto
  qed
qed

lemma round_half_even_ge_int: "of_int N \<le> q \<Longrightarrow> N \<le> round_half_even q"
proof -
  assume "of_int N \<le> q"
  then have "N \<le> \<lfloor>q\<rfloor>" by (simp add: le_floor_iff)
  then show ?thesis unfolding round_half_even_def Let_def by auto
qed

lemma ulp_pos: "0 < ulp x"
  by (simp add: ulp_def)

lemma halvings_step: "0 < n \<Longrightarrow> halvings n x = (if 1 \<le> x then 0 else Suc (halvings (n - 1) (2 * x)))"
  by (cases n) simp_all

lemma exponent_half: "1 / 2 \<le> x \<Longrightarrow> x < 1 \<Longrightarrow> exponent x = - 1"
  by (simp add: exponent_def halvings_step)

lemma exponent_below_one: "\<bar>x\<bar> < 1 \<Longrightarrow> exponent x \<le> 0"
  by (simp add: exponent_def)

lemma exponent_upper:
  assumes "1 \<le> x" and "x < 2 ^ n"
  shows "0 \<le> exponent x \<and> exponent x < int n"
proof -
  have x: "\<bar>x\<bar> = x" using assms by simp
  have pos: "0 < nat \<lfloor>x\<rfloor>" using assms(1) by simp
  have "\<lfloor>x\<rfloor> < 2 ^ n" using assms(2) by (simp add: floor_less_iff)
  then have "nat \<lfloor>x\<rfloor> < 2 ^ n" using assms(1) by (simp add: nat_less_iff)
  then have "floorlog 2 (nat \<lfloor>x\<rfloor>) \<le> n" by (intro floorlog_leI) simp_all
  moreover have "floorlog 2 (nat \<lfloor>x\<rfloor>) \<noteq> 0"
    using pos by (simp add: floorlog_eq_zero_iff)
  ultimately show ?thesis using assms(1) x by (simp add: exponent_def)
qed


lemma ulp_le: "exponent x \<le> e \<Longrightarrow> ulp x \<le> 2 powi (e - 52)"
  unfolding ulp_def by (intro power_int_increasing) simp_all

lemma fl_nonneg: "0 \<le> x \<Longrightarrow> 0 \<le> fl x"
proof (cases "x = 0")
  case True
  then show ?thesis by (simp add: fl_def)
next
  case False
  assume "0 \<le> x"
  then have "real_of_int 0 \<le> x / ulp x" using ulp_pos[of x] by simp
  then have "0 \<le> round_half_even (x / ulp x)" by (rule round_half_even_ge_int)
  then show ?thesis using ulp_pos[of x] False by (simp add: fl_def)
qed

lemma fl_upper: "fl x \<le> x + ulp x / 2"
proof (cases "x = 0")
  case True
  then show ?thesis using ulp_pos[of x] by (simp add: fl_def)
next
  case False
  have "ulp x * real_of_int (round_half_even (x / ulp x)) \<le> ulp x * (x / ulp x + 1 / 2)"
    using ulp_pos[of x] round_half_even_upper[of "x / ulp x"]
    by (intro mult_left_mono) simp_all
  also have "\<dots> = x + ulp x / 2" using ulp_pos[of x] by (simp add: algebra_simps)
  finally show ?thesis using False by (simp add: fl_def)
qed

text \<open>Rounding never crosses an integer, for magnitudes from 1 up to 2^53.\<close>

lemma ulp_reciprocal:
  assumes "1 \<le> x" and "x < 2 ^ 53"
  shows "\<exists>k. ulp x = 1 / 2 ^ k"
proof -
  from exponent_upper[OF assms] have e: "0 \<le> exponent x" "exponent x \<le> 52" by simp_all
  have "ulp x = 2 powi (- (52 - exponent x))" by (simp add: ulp_def)
  also have "\<dots> = inverse (2 powi (52 - exponent x))" by (rule power_int_minus)
  also have "2 powi (52 - exponent x) = (2::real) ^ nat (52 - exponent x)"
    using e by (simp add: power_int_def)
  finally have "ulp x = 1 / 2 ^ nat (52 - exponent x)" by (simp add: inverse_eq_divide)
  then show ?thesis by blast
qed

lemma fl_le_int:
  assumes "1 \<le> x" and "x < 2 ^ 53" and "x \<le> of_int c"
  shows "fl x \<le> of_int c"
proof -
  obtain k where k: "ulp x = 1 / 2 ^ k" using ulp_reciprocal[OF assms(1,2)] by blast
  have "x / ulp x = x * 2 ^ k" by (simp add: k)
  also have "\<dots> \<le> of_int c * 2 ^ k" using assms(3) by simp
  also have "\<dots> = of_int (c * 2 ^ k)" by simp
  finally have "round_half_even (x / ulp x) \<le> c * 2 ^ k" by (rule round_half_even_le_int)
  then have "real_of_int (round_half_even (x / ulp x)) \<le> of_int (c * 2 ^ k)"
    by (simp only: of_int_le_iff)
  then have "real_of_int (round_half_even (x / ulp x)) / 2 ^ k \<le> of_int (c * 2 ^ k) / 2 ^ k"
    by (intro divide_right_mono) simp_all
  also have "\<dots> = of_int c" by simp
  finally show ?thesis using assms(1) by (simp add: fl_def k)
qed

lemma fl_ge_int:
  assumes "1 \<le> x" and "x < 2 ^ 53" and "of_int c \<le> x"
  shows "of_int c \<le> fl x"
proof -
  obtain k where k: "ulp x = 1 / 2 ^ k" using ulp_reciprocal[OF assms(1,2)] by blast
  have "real_of_int (c * 2 ^ k) = of_int c * 2 ^ k" by simp
  also have "\<dots> \<le> x * 2 ^ k" using assms(3) by simp
  also have "\<dots> = x / ulp x" by (simp add: k)
  finally have "c * 2 ^ k \<le> round_half_even (x / ulp x)" by (rule round_half_even_ge_int)
  then have "real_of_int (c * 2 ^ k) \<le> of_int (round_half_even (x / ulp x))"
    by (simp only: of_int_le_iff)
  then have "real_of_int (c * 2 ^ k) / 2 ^ k \<le> of_int (round_half_even (x / ulp x)) / 2 ^ k"
    by (intro divide_right_mono) simp_all
  moreover have "real_of_int (c * 2 ^ k) / 2 ^ k = of_int c" by simp
  ultimately show ?thesis using assms(1) by (simp add: fl_def k)
qed

lemma fl_int: "1 \<le> c \<Longrightarrow> c < 2 ^ 53 \<Longrightarrow> fl (of_int c) = of_int c"
proof -
  assume c: "1 \<le> c" "c < 2 ^ 53"
  then have "1 \<le> real_of_int c" by simp
  moreover have "real_of_int c < 2 ^ 53" using c(2) by (metis of_int_less_iff of_int_numeral of_int_power)
  ultimately show ?thesis
    using fl_le_int[of "of_int c" c] fl_ge_int[of "of_int c" c] by simp
qed

text \<open>The largest double below 1.\<close>

lemma double_below_one:
  assumes "is_double r" and "0 \<le> r" and "r < 1"
  shows "r \<le> 1 - 1 / 2 ^ 53"
proof (cases "r < 1 / 2")
  case True
  then show ?thesis by simp
next
  case False
  then have "exponent r = - 1" using assms(3) by (intro exponent_half) simp_all
  then have u: "ulp r = 1 / 2 ^ 53" by (simp add: ulp_def power_int_minus field_simps)
  have r0: "r \<noteq> 0" using False by simp
  define n where "n = round_half_even (r / ulp r)"
  have "fl r = ulp r * of_int n" using r0 by (simp add: fl_def n_def)
  then have r: "r = of_int n / 2 ^ 53" using assms(1) by (simp add: is_double_def u)
  have "real_of_int n = r * 2 ^ 53" by (subst r) simp
  also have "\<dots> < 1 * 2 ^ 53" using assms(3) by (intro mult_strict_right_mono) simp_all
  finally have "real_of_int n < real_of_int (2 ^ 53)" by simp
  then have "n < 2 ^ 53" by (simp only: of_int_less_iff)
  then have "n \<le> 2 ^ 53 - 1" by simp
  then have "real_of_int n \<le> real_of_int (2 ^ 53 - 1)" by (simp only: of_int_le_iff)
  then have "real_of_int n / 2 ^ 53 \<le> real_of_int (2 ^ 53 - 1) / 2 ^ 53"
    by (intro divide_right_mono) simp_all
  also have "\<dots> = 1 - 1 / 2 ^ 53" by simp
  finally show ?thesis by (subst r)
qed

text \<open>The jitter \<open>Math.random() * 500\<close> lies in \<open>[0, 500)\<close>.\<close>

lemma jitter_bounds:
  assumes "is_double r" and "0 \<le> r" and "r < 1"
  shows "0 \<le> fmul r 500 \<and> fmul r 500 < 500"
proof -
  have r: "r \<le> 1 - 1 / 2 ^ 53" using assms by (rule double_below_one)
  let ?x = "r * 500"
  have x0: "0 \<le> ?x" using assms(2) by simp
  have x1: "?x \<le> 500 - 500 / 2 ^ 53" using r by simp
  have lower: "0 \<le> fl ?x" using x0 by (rule fl_nonneg)
  have "exponent ?x \<le> 8"
  proof (cases "?x < 1")
    case True
    then have "exponent ?x \<le> 0" using x0 by (intro exponent_below_one) simp
    then show ?thesis by simp
  next
    case False
    moreover have "?x < 2 ^ 9" using x1 by simp
    ultimately show ?thesis using exponent_upper[of ?x 9] by simp
  qed
  then have "ulp ?x \<le> 2 powi (8 - 52)" by (rule ulp_le)
  then have "ulp ?x \<le> 1 / 2 ^ 44" by (simp add: power_int_minus field_simps)
  with fl_upper[of ?x] x1 have "fl ?x \<le> 500 - 500 / 2 ^ 53 + 1 / 2 ^ 45" by simp
  also have "\<dots> < 500" by simp
  finally show ?thesis using lower by (simp add: fmul_def)
qed


lemma exponent_eq:
  assumes "2 ^ n \<le> x" and "x < 2 ^ Suc n"
  shows "exponent x = int n"
proof -
  have one: "1 \<le> x" using assms(1) one_le_power[of "2::real" n] by linarith
  then have x: "\<bar>x\<bar> = x" by simp
  have "real_of_int (2 ^ n) \<le> x" using assms(1) by simp
  then have "2 ^ n \<le> \<lfloor>x\<rfloor>" by (simp only: le_floor_iff)
  then have lo: "2 ^ n \<le> nat \<lfloor>x\<rfloor>" by (simp add: le_nat_iff)
  have "x < real_of_int (2 ^ Suc n)" using assms(2) by simp
  then have "\<lfloor>x\<rfloor> < 2 ^ Suc n" by (simp only: floor_less_iff)
  then have hi: "nat \<lfloor>x\<rfloor> < 2 ^ Suc n" using one by (simp add: nat_less_iff)
  have "Suc n \<le> floorlog 2 (nat \<lfloor>x\<rfloor>)" using lo by (intro floorlog_ge_SucI) simp_all
  moreover have "floorlog 2 (nat \<lfloor>x\<rfloor>) \<le> Suc n" using hi by (intro floorlog_leI) simp_all
  ultimately show ?thesis using one x by (simp add: exponent_def)
qed

lemma round_half_even_down:
  "of_int f \<le> q \<Longrightarrow> q < of_int f + 1 / 2 \<Longrightarrow> round_half_even q = f"
proof -
  assume a: "of_int f \<le> q" "q < of_int f + 1 / 2"
  then have "\<lfloor>q\<rfloor> = f" by (intro floor_unique) simp_all
  then show ?thesis using a by (simp add: round_half_even_def)
qed

lemma round_half_even_tie_odd:
  "q = of_int f + 1 / 2 \<Longrightarrow> odd f \<Longrightarrow> round_half_even q = f + 1"
proof -
  assume a: "q = of_int f + 1 / 2" "odd f"
  then have "\<lfloor>q\<rfloor> = f" by (intro floor_unique) simp_all
  then show ?thesis using a by (simp add: round_half_even_def)
qed

lemma fl_eval:
  assumes "x \<noteq> 0" and "ulp x = 1 / 2 ^ k" and "round_half_even (x * 2 ^ k) = n"
  shows "fl x = of_int n / 2 ^ k"
  using assms by (simp add: fl_def)

lemma ulp_eval: "exponent x = e \<Longrightarrow> e \<le> 52 \<Longrightarrow> ulp x = 1 / 2 ^ nat (52 - e)"
proof -
  assume e: "exponent x = e" "e \<le> 52"
  have "ulp x = 2 powi (- (52 - e))" using e by (simp add: ulp_def)
  also have "\<dots> = inverse (2 powi (52 - e))" by (rule power_int_minus)
  also have "2 powi (52 - e) = (2::real) ^ nat (52 - e)" using e by (simp add: power_int_def)
  finally show ?thesis by (simp add: inverse_eq_divide)
qed

lemma largest_random_is_double: "is_double (1 - 1 / 2 ^ 52)"
proof -
  define r :: real where "r = 1 - 1 / 2 ^ 52"
  have "exponent r = - 1" unfolding r_def by (intro exponent_half) simp_all
  then have u: "ulp r = 1 / 2 ^ 53" using ulp_eval[of r "- 1"] by simp
  have "r * 2 ^ 53 = real_of_int (2 ^ 53 - 2)" by (simp add: r_def)
  then have n: "round_half_even (r * 2 ^ 53) = 2 ^ 53 - 2"
    using round_half_even_down[of "2 ^ 53 - 2" "r * 2 ^ 53"] by simp
  have "r \<noteq> 0" by (simp add: r_def)
  from fl_eval[OF this u n] have "fl r = r" by (simp add: r_def)
  then show ?thesis by (simp add: is_double_def r_def)
qed

lemma largest_jitter: "fmul (1 - 1 / 2 ^ 52) 500 = 500 - 1 / 2 ^ 43"
proof -
  define x :: real where "x = (1 - 1 / 2 ^ 52) * 500"
  have "exponent x = int 8" unfolding x_def by (intro exponent_eq) simp_all
  then have u: "ulp x = 1 / 2 ^ 44" using ulp_eval[of x 8] by simp
  have n: "round_half_even (x * 2 ^ 44) = 500 * 2 ^ 44 - 2"
    by (intro round_half_even_down) (simp_all add: x_def)
  have "x \<noteq> 0" by (simp add: x_def)
  from fl_eval[OF this u n] have "fl x = 500 - 1 / 2 ^ 43" by simp
  then show ?thesis by (simp add: fmul_def x_def)
qed

lemma largest_delay: "fadd (fmul (2 ^ 0) 1000) (fmul (1 - 1 / 2 ^ 52) 500) = 1500"
proof -
  have b: "fmul (2 ^ 0) 1000 = 1000" using fl_int[of 1000] by (simp add: fmul_def)
  define y :: real where "y = 1000 + (500 - 1 / 2 ^ 43)"
  have "exponent y = int 10" unfolding y_def by (intro exponent_eq) simp_all
  then have u: "ulp y = 1 / 2 ^ 42" using ulp_eval[of y 10] by simp
  have "round_half_even (y * 2 ^ 42) = (1500 * 2 ^ 42 - 1) + 1"
    by (intro round_half_even_tie_odd) (simp_all add: y_def)
  then have n: "round_half_even (y * 2 ^ 42) = 1500 * 2 ^ 42" by simp
  have "y \<noteq> 0" by (simp add: y_def)
  from fl_eval[OF this u n] have y: "fl y = 1500" by simp
  have "fadd (fmul (2 ^ 0) 1000) (fmul (1 - 1 / 2 ^ 52) 500) = fl y"
    unfolding fadd_def b largest_jitter y_def ..
  with y show ?thesis by (simp only:)
qed

lemma half_is_double: "is_double (1 / 2)"
proof -
  define r :: real where "r = 1 / 2"
  have "exponent r = - 1" unfolding r_def by (intro exponent_half) simp_all
  then have u: "ulp r = 1 / 2 ^ 53" using ulp_eval[of r "- 1"] by simp
  have "r * 2 ^ 53 = real_of_int (2 ^ 52)" by (simp add: r_def)
  then have n: "round_half_even (r * 2 ^ 53) = 2 ^ 52"
    using round_half_even_down[of "2 ^ 52" "r * 2 ^ 53"] by simp
  have "r \<noteq> 0" by (simp add: r_def)
  from fl_eval[OF this u n] have "fl r = r" by (simp add: r_def)
  then show ?thesis by (simp add: is_double_def r_def)
qed

lemma base_exact: "i < 4 \<Longrightarrow> fmul (2 ^ i) 1000 = 2 ^ i * 1000"
proof -
  assume "i < 4"
  then have "i = 0 \<or> i = 1 \<or> i = 2 \<or> i = 3" by auto
  then show ?thesis
    using fl_int[of 1000] fl_int[of 2000] fl_int[of 4000] fl_int[of 8000]
    by (auto simp: fmul_def)
qed

lemma delay_bounds:
  assumes "i < 4" and "0 \<le> j" and "j < 500"
  shows "2 ^ i * 1000 \<le> fadd (2 ^ i * 1000) j \<and> fadd (2 ^ i * 1000) j \<le> 2 ^ i * 1000 + 500"
proof -
  let ?b = "2 ^ i * 1000 :: int"
  have b: "real_of_int ?b = 2 ^ i * 1000" by simp
  have "(2::real) ^ i \<le> 2 ^ 3" using assms(1) by (intro power_increasing) simp_all
  then have hi: "(2::real) ^ i * 1000 \<le> 8000" by simp
  have "(1::real) \<le> 2 ^ i" by simp
  then have lo: "1000 \<le> (2::real) ^ i * 1000" by simp
  let ?y = "2 ^ i * 1000 + j :: real"
  have y1: "1 \<le> ?y" using lo assms(2) by linarith
  have y2: "?y < 2 ^ 53" using hi assms(3) by simp
  have "real_of_int ?b \<le> ?y" using assms(2) by simp
  from fl_ge_int[OF y1 y2 this] have l: "2 ^ i * 1000 \<le> fl ?y" by simp
  have "?y \<le> real_of_int (?b + 500)" using assms(3) by simp
  from fl_le_int[OF y1 y2 this] have u: "fl ?y \<le> 2 ^ i * 1000 + 500" by simp
  from l u show ?thesis by (simp add: fadd_def)
qed

lemma half_delay: "i < 4 \<Longrightarrow> fadd (fmul (2 ^ i) 1000) (fmul (1 / 2) 500) = 2 ^ i * 1000 + 250"
proof -
  assume "i < 4"
  then have i: "i = 0 \<or> i = 1 \<or> i = 2 \<or> i = 3" by auto
  from i show ?thesis
    using fl_int[of 250] fl_int[of 1000] fl_int[of 2000] fl_int[of 4000] fl_int[of 8000]
          fl_int[of 1250] fl_int[of 2250] fl_int[of 4250] fl_int[of 8250]
    by (auto simp: fmul_def fadd_def)
qed

lemma half_delays:
  "fadd (fmul 1 1000) (fmul (1 / 2) 500) = 1250"
  "fadd (fmul 2 1000) (fmul (1 / 2) 500) = 2250"
  "fadd (fmul 4 1000) (fmul (1 / 2) 500) = 4250"
  "fadd (fmul 8 1000) (fmul (1 / 2) 500) = 8250"
  using half_delay[of 0] half_delay[of 1] half_delay[of 2] half_delay[of 3] by simp_all

section \<open>The retry loop\<close>

lemma for_loop_step:
  "i < MAX_RETRIES \<Longrightarrow>
   for_loop env p i =
     (case iteration env p i of
        (Next, tr) \<Rightarrow> (case for_loop env p (Suc i) of (x, tr') \<Rightarrow> (x, tr @ tr'))
      | (x, tr) \<Rightarrow> (x, tr))"
  by (subst for_loop.simps) simp

lemma iteration_trace:
  "snd (iteration env p i) =
     Fetch i # (if retryable_response (attempt env p i) \<and> i < MAX_RETRIES - 1
                then [Wait (backoff_delay env i)] else [])"
  by (auto simp: iteration_def try_block_def backoff_delay_def Let_def
           split: sum.splits exit.splits prod.splits)

lemma iteration_last: "i = MAX_RETRIES - 1 \<Longrightarrow> fst (iteration env p i) \<noteq> Next"
  by (auto simp: iteration_def try_block_def Let_def MAX_RETRIES_def
           split: sum.splits exit.splits prod.splits)

lemma iteration_retryable:
  "retryable_response (attempt env p i) \<Longrightarrow> i < MAX_RETRIES - 1 \<Longrightarrow> fst (iteration env p i) = Next"
  by (auto simp: iteration_def try_block_def Let_def
           split: sum.splits exit.splits prod.splits)

lemma for_loop_exits: "i < MAX_RETRIES \<Longrightarrow> fst (for_loop env p i) \<noteq> Next"
proof (induction env p i rule: for_loop.induct)
  case (1 env p i)
  show ?case
  proof (cases "Suc i < MAX_RETRIES")
    case True
    with 1 show ?thesis
      by (auto simp: for_loop_step split: prod.splits exit.splits)
  next
    case False
    with 1(2) have "i = MAX_RETRIES - 1" by simp
    from iteration_last[OF this, of env p] 1(2) show ?thesis
      by (auto simp: for_loop_step split: prod.splits exit.splits)
  qed
qed

lemma attempts_iteration: "attempts (snd (iteration env p i)) = 1"
  by (simp add: iteration_trace attempts_def)

lemma attempts_append: "attempts (xs @ ys) = attempts xs + attempts ys"
  by (simp add: attempts_def)

lemma for_loop_schedule:
  "i < MAX_RETRIES \<Longrightarrow>
   attempts (snd (for_loop env p i)) \<ge> 1 \<and> i + attempts (snd (for_loop env p i)) \<le> MAX_RETRIES \<and>
   snd (for_loop env p i) = schedule env p i (i + attempts (snd (for_loop env p i)))"
proof (induction env p i rule: for_loop.induct)
  case (1 env p i)
  obtain x tr where it: "iteration env p i = (x, tr)" by (cases "iteration env p i")
  have tr: "tr = Fetch i # (if retryable_response (attempt env p i) \<and> i < MAX_RETRIES - 1
                then [Wait (backoff_delay env i)] else [])"
    using iteration_trace[of env p i] it by simp
  have atr: "attempts tr = 1" using attempts_iteration[of env p i] it by simp
  show ?case
  proof (cases "x = Next")
    case False
    then have fl: "for_loop env p i = (x, tr)"
      using 1(2) it by (cases x) (simp_all add: for_loop_step)
    have "\<not> (retryable_response (attempt env p i) \<and> i < MAX_RETRIES - 1)"
      using iteration_retryable[of env p i] it False by auto
    then have "tr = [Fetch i]" using tr by simp
    then show ?thesis using fl 1(2)
      by (simp add: attempts_def schedule_def wait_after_def)
  next
    case True
    have "i \<noteq> MAX_RETRIES - 1" using iteration_last[of i env p] it True by auto
    then have lt: "Suc i < MAX_RETRIES" using 1(2) by simp
    obtain y tr' where rest: "for_loop env p (Suc i) = (y, tr')" by (cases "for_loop env p (Suc i)")
    have fl: "for_loop env p i = (y, tr @ tr')"
      using 1(2) it True rest by (simp add: for_loop_step)
    from 1(1)[OF 1(2) it[symmetric] True lt] rest
    have ih: "attempts tr' \<ge> 1" "Suc i + attempts tr' \<le> MAX_RETRIES"
             "tr' = schedule env p (Suc i) (Suc i + attempts tr')"
      by simp_all
    let ?n = "Suc i + attempts tr'"
    have n: "i + attempts (tr @ tr') = ?n" using atr by (simp add: attempts_append)
    have "Suc i < ?n" using ih(1) by simp
    moreover have "i < MAX_RETRIES - 1" using lt by simp
    ultimately have hd: "tr = Fetch i # wait_after env p ?n i"
      using tr by (simp add: wait_after_def)
    have "i < ?n" by simp
    then have "[i..<?n] = i # [Suc i..<?n]" by (rule upt_conv_Cons)
    then have "schedule env p i ?n = (Fetch i # wait_after env p ?n i) @ schedule env p (Suc i) ?n"
      unfolding schedule_def by simp
    then have "tr @ tr' = schedule env p i ?n" using hd ih(3) by simp
    then show ?thesis using fl n ih(1,2) atr by (simp add: attempts_append)
  qed
qed

lemma callGeminiAPI_trace: "snd (callGeminiAPI env p) = snd (for_loop env p 0)"
  by (simp add: callGeminiAPI_def split: prod.splits exit.splits)

lemma callGeminiAPI_result:
  "fst (callGeminiAPI env p) =
     (case fst (for_loop env p 0) of
        Return v \<Rightarrow> Inr v | Throw e \<Rightarrow> Inl e | Next \<Rightarrow> Inl fallback_error)"
  by (simp add: callGeminiAPI_def split: prod.splits exit.splits)

lemma scripted_attempt:
  "attempt (scripted outcomes fails) p i =
     (if i < length outcomes then outcomes ! i else Inl network_error)"
  by (simp add: attempt_def scripted_def)

lemma scripted_stringify: "stringify (scripted outcomes fails) v = lit ''{}''"
  by (simp add: scripted_def)

lemma scripted_random: "random (scripted outcomes fails) i = 1 / 2"
  by (simp add: scripted_def)

lemma extract_generated: "extract_text env generated = Inr (JStr (lit ''hi''))"
  by (simp add: extract_text_def generated_def opt_named_def opt_index0_def lit_def)

lemma extract_empty: "extract_text env (JObj []) = Inr JUndefined"
  by (simp add: extract_text_def opt_named_def opt_index0_def)

lemmas run_simps =
  callGeminiAPI_def for_loop_step iteration_def try_block_def scripted_attempt scripted_random
  scripted_stringify half_delays
  extract_generated extract_empty MAX_RETRIES_def retryable_status_def ok_def ok_response_def
  empty_ok_response_def bad_request_def too_many_requests_def

text \<open>
  C9: whatever the attempts' outcomes, the loop is left by a \<open>return\<close> or a \<open>throw\<close> within
  its \<open>MAX_RETRIES\<close> iterations: it never runs to its end, which is the only way to reach
  the throw after the loop, and it makes at most \<open>MAX_RETRIES\<close> attempts.
\<close>

theorem fallback_unreachable:
  "fst (for_loop env payload 0) \<noteq> Next \<and> attempts (snd (for_loop env payload 0)) \<le> MAX_RETRIES"
proof -
  have "0 < MAX_RETRIES" by (simp add: MAX_RETRIES_def)
  from for_loop_exits[OF this] for_loop_schedule[OF this] show ?thesis by simp
qed

lemma for_loop_continues:
  "i < MAX_RETRIES \<Longrightarrow> i \<le> k \<Longrightarrow> k < i + attempts (snd (for_loop env p i)) \<Longrightarrow>
   fst (iteration env p k) = Next \<Longrightarrow> Suc k < i + attempts (snd (for_loop env p i))"
proof (induction env p i rule: for_loop.induct)
  case (1 env p i)
  obtain x tr where it: "iteration env p i = (x, tr)" by (cases "iteration env p i")
  have atr: "attempts tr = 1" using attempts_iteration[of env p i] it by simp
  show ?case
  proof (cases "x = Next")
    case False
    then have "for_loop env p i = (x, tr)"
      using 1(2) it by (cases x) (simp_all add: for_loop_step)
    with 1(3,4) atr have "k = i" by simp
    with 1(5) it False show ?thesis by simp
  next
    case True
    have "i \<noteq> MAX_RETRIES - 1" using iteration_last[of i env p] it True by auto
    then have lt: "Suc i < MAX_RETRIES" using 1(2) by simp
    obtain y tr' where rest: "for_loop env p (Suc i) = (y, tr')" by (cases "for_loop env p (Suc i)")
    have "for_loop env p i = (y, tr @ tr')"
      using 1(2) it True rest by (simp add: for_loop_step)
    then have n: "attempts (snd (for_loop env p i)) = 1 + attempts tr'"
      using atr by (simp add: attempts_append)
    have a1: "1 \<le> attempts tr'" using for_loop_schedule[OF lt, of env p] rest by simp
    show ?thesis
    proof (cases "k = i")
      case k: True
      then show ?thesis using n a1 by simp
    next
      case k: False
      then have "Suc i \<le> k" using 1(3) by simp
      moreover have "k < Suc i + attempts (snd (for_loop env p (Suc i)))"
        using 1(4) n rest by simp
      ultimately have "Suc k < Suc i + attempts (snd (for_loop env p (Suc i)))"
        using 1(1)[OF 1(2) it[symmetric] True lt] 1(5) by simp
      then show ?thesis using n rest by simp
    qed
  qed
qed

lemma iteration_transient_next:
  "transient (attempt env p i) \<Longrightarrow> i < MAX_RETRIES - 1 \<Longrightarrow> fst (iteration env p i) = Next"
  by (auto simp: iteration_def try_block_def Let_def
           split: sum.splits exit.splits prod.splits)

text \<open>
  C3 (amended): the effects of every run are exactly its attempts in order, where an
  attempt is followed by one wait exactly when its outcome is a response with status 429
  or 5xx and another attempt follows; an attempt that fails in transport, a terminal
  outcome and a success are followed by no wait. The wait after attempt \<open>k\<close> lasts the
  double sum of \<open>2 ^ k * 1000\<close>, which is computed exactly, and a jitter in \<open>[0, 500)\<close>.
  Every transient attempt before the fifth, a transport failure included, is followed
  by another attempt.
\<close>

theorem backoff_schedule:
  assumes "\<forall>i. is_double (random env i) \<and> 0 \<le> random env i \<and> random env i < 1"
  shows "snd (callGeminiAPI env payload) =
           schedule env payload 0 (attempts (snd (callGeminiAPI env payload)))
         \<and> (\<forall>k. backoff_delay env k = fadd (fmul (2 ^ k) 1000) (fmul (random env k) 500)
                \<and> 0 \<le> fmul (random env k) 500 \<and> fmul (random env k) 500 < 500)
         \<and> (\<forall>k. k < MAX_RETRIES - 1 \<longrightarrow> fmul (2 ^ k) 1000 = 2 ^ k * 1000)
         \<and> (\<forall>k. k < attempts (snd (callGeminiAPI env payload)) \<and> k < MAX_RETRIES - 1
                  \<and> transient (attempt env payload k)
                \<longrightarrow> Suc k < attempts (snd (callGeminiAPI env payload)))"
proof (intro conjI allI impI)
  have pos: "0 < MAX_RETRIES" by (simp add: MAX_RETRIES_def)
  from for_loop_schedule[OF pos, of env payload]
  show "snd (callGeminiAPI env payload) =
          schedule env payload 0 (attempts (snd (callGeminiAPI env payload)))"
    by (simp add: callGeminiAPI_trace)
next
  fix k
  show "backoff_delay env k = fadd (fmul (2 ^ k) 1000) (fmul (random env k) 500)"
    by (simp add: backoff_delay_def)
next
  fix k
  from assms have "is_double (random env k)" "0 \<le> random env k" "random env k < 1" by simp_all
  then show "0 \<le> fmul (random env k) 500" by (simp add: jitter_bounds)
next
  fix k
  from assms have "is_double (random env k)" "0 \<le> random env k" "random env k < 1" by simp_all
  then show "fmul (random env k) 500 < 500" by (simp add: jitter_bounds)
next
  fix k
  assume "k < MAX_RETRIES - 1"
  then have "k < 4" by (simp add: MAX_RETRIES_def)
  then show "fmul (2 ^ k) 1000 = 2 ^ k * 1000" by (rule base_exact)
next
  fix k
  assume k: "k < attempts (snd (callGeminiAPI env payload)) \<and> k < MAX_RETRIES - 1
             \<and> transient (attempt env payload k)"
  have pos: "0 < MAX_RETRIES" by (simp add: MAX_RETRIES_def)
  from k have "fst (iteration env payload k) = Next" by (simp add: iteration_transient_next)
  with for_loop_continues[OF pos, of k env payload] k
  show "Suc k < attempts (snd (callGeminiAPI env payload))"
    by (simp add: callGeminiAPI_trace)
qed

theorem backoff_schedule_witness:
  "(\<forall>i. is_double (random (scripted [Inr too_many_requests, Inl network_error, Inr ok_response] no_failure) i)
        \<and> 0 \<le> random (scripted [Inr too_many_requests, Inl network_error, Inr ok_response] no_failure) i
        \<and> random (scripted [Inr too_many_requests, Inl network_error, Inr ok_response] no_failure) i < 1)
   \<and> snd (callGeminiAPI (scripted [Inr too_many_requests, Inl network_error, Inr ok_response] no_failure)
            (make_payload hello))
       = [Fetch 0, Wait 1250, Fetch 1, Fetch 2]
   \<and> schedule (scripted [Inr too_many_requests, Inl network_error, Inr ok_response] no_failure)
        (make_payload hello) 0 3
       = [Fetch 0, Wait 1250, Fetch 1, Fetch 2]"
proof -
  let ?env = "scripted [Inr too_many_requests, Inl network_error, Inr ok_response] no_failure"
  have h: "\<forall>i. is_double (random ?env i) \<and> 0 \<le> random ?env i \<and> random ?env i < 1"
    by (simp add: scripted_random half_is_double)
  have e: "snd (callGeminiAPI ?env (make_payload hello)) = [Fetch 0, Wait 1250, Fetch 1, Fetch 2]"
    by (simp add: run_simps)
  have a: "attempts [Fetch 0, Wait 1250, Fetch 1, Fetch 2] = 3"
    by (simp add: attempts_def)
  from backoff_schedule[OF h, of "make_payload hello"] e a
  have "schedule ?env (make_payload hello) 0 3 = [Fetch 0, Wait 1250, Fetch 1, Fetch 2]"
    by simp
  with h e show ?thesis by blast
qed

text \<open>
  C3 as stated fails: an attempt that fails in transport and is followed by another
  attempt is followed by no wait.
\<close>

theorem transport_failure_no_wait:
  "transient (attempt (scripted [Inl network_error, Inr ok_response] no_failure) (make_payload hello) 0)
   \<and> callGeminiAPI (scripted [Inl network_error, Inr ok_response] no_failure) (make_payload hello)
       = (Inr (JStr (lit ''hi'')), [Fetch 0, Fetch 1])"
  by (simp add: run_simps)

lemma iteration_transient_last:
  "transient (attempt env p i) \<Longrightarrow> i = MAX_RETRIES - 1 \<Longrightarrow>
   fst (iteration env p i) = Throw (last_attempt_error env p)"
  by (auto simp: iteration_def try_block_def Let_def last_attempt_error_def
           split: sum.splits exit.splits prod.splits)

lemma for_loop_transient:
  "i < MAX_RETRIES \<Longrightarrow> (\<forall>k. i \<le> k \<and> k < MAX_RETRIES \<longrightarrow> transient (attempt env p k)) \<Longrightarrow>
   fst (for_loop env p i) = Throw (last_attempt_error env p) \<and>
   attempts (snd (for_loop env p i)) = MAX_RETRIES - i"
proof (induction env p i rule: for_loop.induct)
  case (1 env p i)
  obtain x tr where it: "iteration env p i = (x, tr)" by (cases "iteration env p i")
  have atr: "attempts tr = 1" using attempts_iteration[of env p i] it by simp
  have ti: "transient (attempt env p i)" using 1(2,3) by simp
  show ?case
  proof (cases "Suc i < MAX_RETRIES")
    case False
    then have last: "i = MAX_RETRIES - 1" using 1(2) by simp
    from iteration_transient_last[OF ti last] it
    have "x = Throw (last_attempt_error env p)" by simp
    then have "for_loop env p i = (Throw (last_attempt_error env p), tr)"
      using 1(2) it by (simp add: for_loop_step)
    then show ?thesis using atr last 1(2) by simp
  next
    case True
    then have "i < MAX_RETRIES - 1" by simp
    from iteration_transient_next[OF ti this] it have x: "x = Next" by simp
    obtain y tr' where rest: "for_loop env p (Suc i) = (y, tr')" by (cases "for_loop env p (Suc i)")
    have fl: "for_loop env p i = (y, tr @ tr')"
      using 1(2) it x rest by (simp add: for_loop_step)
    have "\<forall>k. Suc i \<le> k \<and> k < MAX_RETRIES \<longrightarrow> transient (attempt env p k)"
      using 1(3) by simp
    from 1(1)[OF 1(2) it[symmetric] x True this] rest
    have "y = Throw (last_attempt_error env p)" "attempts tr' = MAX_RETRIES - Suc i"
      by simp_all
    then show ?thesis using fl atr True by (simp add: attempts_append)
  qed
qed

text \<open>
  C4 (amended): when every attempt's outcome is transient, the call makes exactly 5
  attempts and then fails with what the fifth attempt produced: the error built from
  that response's status and body text when the fifth outcome is a response with status
  429 or 5xx whose body could be read, and otherwise the transport failure (or the
  failure to read the body) itself.
\<close>

theorem exhausted_after_five_attempts:
  assumes "all_transient env payload"
  shows "attempts (snd (callGeminiAPI env payload)) = 5
         \<and> fst (callGeminiAPI env payload) = Inl (last_attempt_error env payload)"
proof -
  have pos: "0 < MAX_RETRIES" by (simp add: MAX_RETRIES_def)
  have "\<forall>k. 0 \<le> k \<and> k < MAX_RETRIES \<longrightarrow> transient (attempt env payload k)"
    using assms by (simp add: all_transient_def list_all_iff)
  from for_loop_transient[OF pos this]
  show ?thesis
    by (simp add: callGeminiAPI_trace callGeminiAPI_result MAX_RETRIES_def)
qed

theorem exhausted_after_five_attempts_witness:
  "all_transient
     (scripted [Inr too_many_requests, Inr too_many_requests, Inr too_many_requests,
                Inr too_many_requests, Inr too_many_requests] no_failure) (make_payload hello)
   \<and> attempts (snd (callGeminiAPI
        (scripted [Inr too_many_requests, Inr too_many_requests, Inr too_many_requests,
                   Inr too_many_requests, Inr too_many_requests] no_failure) (make_payload hello))) = 5
   \<and> fst (callGeminiAPI
        (scripted [Inr too_many_requests, Inr too_many_requests, Inr too_many_requests,
                   Inr too_many_requests, Inr too_many_requests] no_failure) (make_payload hello))
       = Inl (retries_exhausted_error 429 (lit ''busy''))"
proof -
  let ?env = "scripted [Inr too_many_requests, Inr too_many_requests, Inr too_many_requests,
                Inr too_many_requests, Inr too_many_requests] no_failure"
  have h: "all_transient ?env (make_payload hello)"
    by (simp add: all_transient_def scripted_attempt MAX_RETRIES_def upt_rec
          too_many_requests_def retryable_status_def)
  have l: "last_attempt_error ?env (make_payload hello) = retries_exhausted_error 429 (lit ''busy'')"
    by (simp add: last_attempt_error_def scripted_attempt MAX_RETRIES_def too_many_requests_def)
  from exhausted_after_five_attempts[OF h] h l show ?thesis by simp
qed

text \<open>
  C4 as stated fails: after four 429 responses and a transport failure of the fifth
  attempt, every outcome was transient, yet the error thrown is the transport failure,
  which carries neither a status nor a body.
\<close>

theorem last_transport_failure_rethrown:
  "all_transient
     (scripted [Inr too_many_requests, Inr too_many_requests, Inr too_many_requests,
                Inr too_many_requests, Inl network_error] no_failure) (make_payload hello)
   \<and> callGeminiAPI
        (scripted [Inr too_many_requests, Inr too_many_requests, Inr too_many_requests,
                   Inr too_many_requests, Inl network_error] no_failure) (make_payload hello)
       = (Inl (JsError TypeErrorC (lit ''fetch failed'')),
          [Fetch 0, Wait 1250, Fetch 1, Wait 2250, Fetch 2, Wait 4250, Fetch 3, Wait 8250, Fetch 4])"
  by (simp add: all_transient_def upt_rec run_simps network_error_def)

text \<open>
  C1, at a failing input: the first attempt receives status 400. The \<open>try\<close> block throws
  the client error, the \<open>catch\<close> block drops it because the iteration is not the last, and
  the call goes on to a second attempt, whose text it returns.
\<close>

theorem client_error_retried:
  "try_block (scripted [Inr bad_request, Inr ok_response] no_failure) (make_payload hello) 0
     = (Throw (client_error 400 (lit ''{}'')), [Fetch 0])
   \<and> iteration (scripted [Inr bad_request, Inr ok_response] no_failure) (make_payload hello) 0
     = (Next, [Fetch 0])
   \<and> callGeminiAPI (scripted [Inr bad_request, Inr ok_response] no_failure) (make_payload hello)
     = (Inr (JStr (lit ''hi'')), [Fetch 0, Fetch 1])"
  by (simp add: run_simps)

text \<open>
  C2, at a failing input: the first attempt receives status 200 with a body that has no
  candidates. The \<open>try\<close> block throws the missing-content error, the \<open>catch\<close> block drops
  it because the iteration is not the last, and the call goes on to a second attempt.
\<close>

theorem content_missing_retried:
  "try_block (scripted [Inr empty_ok_response, Inr ok_response] no_failure) (make_payload hello) 0
     = (Throw content_missing_error, [Fetch 0])
   \<and> iteration (scripted [Inr empty_ok_response, Inr ok_response] no_failure) (make_payload hello) 0
     = (Next, [Fetch 0])
   \<and> callGeminiAPI (scripted [Inr empty_ok_response, Inr ok_response] no_failure) (make_payload hello)
     = (Inr (JStr (lit ''hi'')), [Fetch 0, Fetch 1])"
  by (simp add: run_simps)

section \<open>The handler\<close>

lemma schedule_events: "ev \<in> set (schedule env p i n) \<Longrightarrow> is_fetch ev \<or> is_wait ev"
  by (auto simp: schedule_def wait_after_def split: if_splits)

lemma callGeminiAPI_events:
  "ev \<in> set (snd (callGeminiAPI env p)) \<Longrightarrow> is_fetch ev \<or> is_wait ev"
proof -
  assume ev: "ev \<in> set (snd (callGeminiAPI env p))"
  have "0 < MAX_RETRIES" by (simp add: MAX_RETRIES_def)
  from for_loop_schedule[OF this, of env p] ev
  have "ev \<in> set (schedule env p 0 (0 + attempts (snd (for_loop env p 0))))"
    by (simp add: callGeminiAPI_trace)
  then show ?thesis by (rule schedule_events)
qed

lemma attempt_not_created: "is_fetch ev \<or> is_wait ev \<Longrightarrow> \<not> is_created ev"
  by (cases ev) auto

lemma callGeminiAPI_only_attempts:
  "callGeminiAPI env p = (res, tr) \<Longrightarrow> ev \<in> set tr \<Longrightarrow> is_fetch ev \<or> is_wait ev"
  using callGeminiAPI_events[of ev env p] by simp

text \<open>The four ways the \<open>try\<close> block of the handler can go.\<close>

lemma handler_try_cases:
  obtains
    (UserWriteFailed) e where
      "handler_try env db c u = (Inl e, db, [CreateFailed e])"
  | (CompletionFailed) e tr where
      "callGeminiAPI env (make_payload c) = (Inl e, tr)"
      "handler_try env db c u =
         (Inl e,
          db @ [\<lparr>msg_userId = u, msg_role = RUser, msg_content = c, createdAt = store_clock env 0\<rparr>],
          Created \<lparr>msg_userId = u, msg_role = RUser, msg_content = c, createdAt = store_clock env 0\<rparr>
            # tr @ [CompletionThrew e])"
  | (AssistantWriteFailed) e v tr where
      "callGeminiAPI env (make_payload c) = (Inr v, tr)"
      "handler_try env db c u =
         (Inl e,
          db @ [\<lparr>msg_userId = u, msg_role = RUser, msg_content = c, createdAt = store_clock env 0\<rparr>],
          Created \<lparr>msg_userId = u, msg_role = RUser, msg_content = c, createdAt = store_clock env 0\<rparr>
            # tr @ [CompletionReturned v, CreateFailed e])"
  | (Succeeded) v tr where
      "callGeminiAPI env (make_payload c) = (Inr v, tr)"
      "handler_try env db c u =
         (Inr (HttpResponse 200 (JObj [(lit ''reply'', v)])),
          db @ [\<lparr>msg_userId = u, msg_role = RUser, msg_content = c, createdAt = store_clock env 0\<rparr>,
                \<lparr>msg_userId = u, msg_role = RAssistant, msg_content = v, createdAt = store_clock env 1\<rparr>],
          Created \<lparr>msg_userId = u, msg_role = RUser, msg_content = c, createdAt = store_clock env 0\<rparr>
            # tr @ [CompletionReturned v,
                Created \<lparr>msg_userId = u, msg_role = RAssistant, msg_content = v, createdAt = store_clock env 1\<rparr>])"
proof (cases "create_failure env 0")
  case (Some e)
  then have "handler_try env db c u = (Inl e, db, [CreateFailed e])"
    by (simp add: handler_try_def Promt_create_def)
  then show ?thesis by (rule UserWriteFailed)
next
  case None
  obtain res tr where call: "callGeminiAPI env (make_payload c) = (res, tr)"
    by (cases "callGeminiAPI env (make_payload c)")
  show ?thesis
  proof (cases res)
    case (Inl e)
    with None call show ?thesis
      by (intro CompletionFailed[of e tr]) (simp_all add: handler_try_def Promt_create_def Let_def)
  next
    case (Inr v)
    show ?thesis
    proof (cases "create_failure env 1")
      case (Some e)
      with None call Inr show ?thesis
        by (intro AssistantWriteFailed[of v tr e]) (simp_all add: handler_try_def Promt_create_def Let_def)
    next
      case n1: None
      with None call Inr show ?thesis
        by (intro Succeeded[of v tr]) (simp_all add: handler_try_def Promt_create_def Let_def)
    qed
  qed
qed

lemma nullish_get_named: "nullish b \<Longrightarrow> get_named b k = JUndefined"
  by (cases b) simp_all

lemma truthy_content_parsed: "truthy (body_content req) \<Longrightarrow> \<not> nullish (body req)"
  using nullish_get_named[of "body req" "lit ''content''"] by (auto simp: body_content_def)

text \<open>With a parsed body the handler starts from the body's \<open>content\<close>.\<close>

lemma sendPromt_parsed:
  "\<not> nullish (body req) \<Longrightarrow>
   sendPromt env db req =
     (if \<not> truthy (body_content req) then
        \<lparr>outcome = Responded validation_response, store = db, trace = []\<rparr>
      else
        (case call_trim env (body_content req) of
           Inl e \<Rightarrow> \<lparr>outcome = Rejected e, store = db, trace = []\<rparr>
         | Inr trimmed \<Rightarrow>
             if trimmed = [] then
               \<lparr>outcome = Responded validation_response, store = db, trace = []\<rparr>
             else
               (case handler_try env db (body_content req) (userId req) of
                  (Inr res, db', tr) \<Rightarrow> \<lparr>outcome = Responded res, store = db', trace = tr\<rparr>
                | (Inl error, db', tr) \<Rightarrow>
                    \<lparr>outcome = Responded (server_error_response error), store = db',
                     trace = tr @ [ConsoleError error]\<rparr>)))"
  unfolding sendPromt_def destructure_content_def body_content_def Let_def by simp

lemma sendPromt_unparsed:
  "nullish (body req) \<Longrightarrow>
   sendPromt env db req =
     \<lparr>outcome = Rejected (JsError TypeErrorC (destructure_message env)), store = db, trace = []\<rparr>"
  by (simp add: sendPromt_def destructure_content_def)

text \<open>The three ways the handler can go before its \<open>try\<close> block, and the fourth into it.\<close>

lemma sendPromt_cases:
  obtains
    (Invalid) "sendPromt env db req =
        \<lparr>outcome = Responded validation_response, store = db, trace = []\<rparr>"
  | (Threw) e where "sendPromt env db req = \<lparr>outcome = Rejected e, store = db, trace = []\<rparr>"
  | (Ran) s where
      "body_content req = JStr s" "s \<noteq> []" "js_trim s \<noteq> []"
      "sendPromt env db req =
         (case handler_try env db (body_content req) (userId req) of
            (Inr res, db', tr) \<Rightarrow> \<lparr>outcome = Responded res, store = db', trace = tr\<rparr>
          | (Inl error, db', tr) \<Rightarrow>
              \<lparr>outcome = Responded (server_error_response error), store = db',
               trace = tr @ [ConsoleError error]\<rparr>)"
proof (cases "nullish (body req)")
  case True
  then show ?thesis by (intro Threw) (rule sendPromt_unparsed)
next
  case parsed: False
  show ?thesis
  proof (cases "truthy (body_content req)")
    case False
    with parsed show ?thesis by (intro Invalid) (simp add: sendPromt_parsed)
  next
    case True
    show ?thesis
    proof (cases "body_content req")
      case (JStr s)
      with True have ne: "s \<noteq> []" by simp
      show ?thesis
      proof (cases "js_trim s = []")
        case True
        with JStr parsed show ?thesis
          by (intro Invalid) (simp add: sendPromt_parsed call_trim_def)
      next
        case False
        with JStr ne parsed show ?thesis
          by (intro Ran[of s]) (simp_all add: sendPromt_parsed call_trim_def)
      qed
    qed (use True parsed in \<open>(intro Threw, simp add: sendPromt_parsed call_trim_def)+\<close>)
  qed
qed

lemma trim_hello: "js_trim (lit ''hello'') = lit ''hello''"
  by (simp add: js_trim_def is_js_space_def lit_def)

lemma trim_blank: "js_trim (lit ''  '') = []"
  by (simp add: js_trim_def is_js_space_def lit_def)

lemma scripted_store:
  "create_failure (scripted outcomes fails) = fails"
  "store_clock (scripted outcomes fails) k = 100 + k"
  "not_a_function_message (scripted outcomes fails) = lit ''content.trim is not a function''"
  by (simp_all add: scripted_def)

lemmas turn_simps =
  sendPromt_def destructure_content_def body_content_def call_trim_def handler_try_def
  Promt_create_def Let_def trim_hello trim_blank
  scripted_store no_failure_def second_create_fails_def hello_request_def blank_request_def
  number_request_def no_body_request_def hello_def make_payload_def

lemma hello_run:
  "callGeminiAPI (scripted [Inr ok_response] fails) (make_payload hello)
     = (Inr (JStr (lit ''hi'')), [Fetch 0])"
  by (simp add: run_simps)

lemma hello_turn:
  "sendPromt (scripted [Inr ok_response] no_failure) [] hello_request =
     \<lparr>outcome = Responded (HttpResponse 200 (JObj [(lit ''reply'', JStr (lit ''hi''))])),
      store = [\<lparr>msg_userId = JStr (lit ''u1''), msg_role = RUser, msg_content = JStr (lit ''hello''),
                 createdAt = 100\<rparr>,
               \<lparr>msg_userId = JStr (lit ''u1''), msg_role = RAssistant, msg_content = JStr (lit ''hi''),
                 createdAt = 101\<rparr>],
      trace = [Created \<lparr>msg_userId = JStr (lit ''u1''), msg_role = RUser,
                  msg_content = JStr (lit ''hello''), createdAt = 100\<rparr>,
               Fetch 0,
               CompletionReturned (JStr (lit ''hi'')),
               Created \<lparr>msg_userId = JStr (lit ''u1''), msg_role = RAssistant,
                  msg_content = JStr (lit ''hi''), createdAt = 101\<rparr>]\<rparr>"
  using hello_run[of no_failure] by (simp add: turn_simps)

lemma storage_error_message:
  "errorMessage storage_error = lit ''Something went wrong with the AI response.''"
  by (simp add: errorMessage_def generic_message_def storage_error_def lit_def)

lemma hello_turn_store_down:
  "sendPromt (scripted [Inr ok_response] second_create_fails) [] hello_request =
     \<lparr>outcome = Responded (HttpResponse 500
         (JObj [(lit ''error'', JStr (lit ''Something went wrong with the AI response.''))])),
      store = [\<lparr>msg_userId = JStr (lit ''u1''), msg_role = RUser, msg_content = JStr (lit ''hello''),
                 createdAt = 100\<rparr>],
      trace = [Created \<lparr>msg_userId = JStr (lit ''u1''), msg_role = RUser,
                  msg_content = JStr (lit ''hello''), createdAt = 100\<rparr>,
               Fetch 0,
               CompletionReturned (JStr (lit ''hi'')),
               CreateFailed storage_error,
               ConsoleError storage_error]\<rparr>"
  using hello_run[of second_create_fails]
  by (simp add: turn_simps server_error_response_def storage_error_message)

lemma js_trim_Nil: "js_trim [] = []"
  by (simp add: js_trim_def)

text \<open>
  C5: for every content that is a non-empty string and not blank (any other content
  never reaches the completion), when the completion returns a text and neither store
  write fails, the handler appends exactly two messages to the store, the user's with
  the submitted content and then the assistant's with the generated text, both with the
  request's user identifier, and answers 200 with the assistant message's content as
  \<open>reply\<close>. Its effects are the first write, those of the completion call, and the
  second write.
\<close>

theorem successful_turn:
  assumes "body_content req = JStr s" and "js_trim s \<noteq> []"
      and "create_failure env 0 = None" and "create_failure env 1 = None"
      and "fst (callGeminiAPI env (make_payload (body_content req))) = Inr text"
  shows "sendPromt env db req =
           \<lparr>outcome = Responded (HttpResponse 200 (JObj [(lit ''reply'', text)])),
            store =
              db @ [\<lparr>msg_userId = userId req, msg_role = RUser, msg_content = body_content req,
                      createdAt = store_clock env 0\<rparr>,
                    \<lparr>msg_userId = userId req, msg_role = RAssistant, msg_content = text,
                      createdAt = store_clock env 1\<rparr>],
            trace =
              Created \<lparr>msg_userId = userId req, msg_role = RUser, msg_content = body_content req,
                        createdAt = store_clock env 0\<rparr>
              # snd (callGeminiAPI env (make_payload (body_content req)))
              @ [CompletionReturned text,
                 Created \<lparr>msg_userId = userId req, msg_role = RAssistant, msg_content = text,
                           createdAt = store_clock env 1\<rparr>]\<rparr>"
proof -
  have ne: "s \<noteq> []" using assms(2) js_trim_Nil by auto
  then have "truthy (body_content req)" using assms(1) by simp
  then have parsed: "\<not> nullish (body req)" by (rule truthy_content_parsed)
  obtain res tr where call: "callGeminiAPI env (make_payload (JStr s)) = (res, tr)"
    by (cases "callGeminiAPI env (make_payload (JStr s))")
  with assms(1,5) have res: "res = Inr text" by simp
  show ?thesis
    using assms(1-4) ne call res
    by (simp add: sendPromt_parsed[OF parsed] call_trim_def handler_try_def Promt_create_def Let_def)
qed

theorem successful_turn_witness:
  "body_content hello_request = JStr (lit ''hello'') \<and> js_trim (lit ''hello'') \<noteq> []
   \<and> create_failure (scripted [Inr ok_response] no_failure) 0 = None
   \<and> create_failure (scripted [Inr ok_response] no_failure) 1 = None
   \<and> fst (callGeminiAPI (scripted [Inr ok_response] no_failure)
            (make_payload (body_content hello_request))) = Inr (JStr (lit ''hi''))
   \<and> sendPromt (scripted [Inr ok_response] no_failure) [] hello_request =
       \<lparr>outcome = Responded (HttpResponse 200 (JObj [(lit ''reply'', JStr (lit ''hi''))])),
        store = [\<lparr>msg_userId = JStr (lit ''u1''), msg_role = RUser,
                   msg_content = JStr (lit ''hello''), createdAt = 100\<rparr>,
                 \<lparr>msg_userId = JStr (lit ''u1''), msg_role = RAssistant,
                   msg_content = JStr (lit ''hi''), createdAt = 101\<rparr>],
        trace = [Created \<lparr>msg_userId = JStr (lit ''u1''), msg_role = RUser,
                    msg_content = JStr (lit ''hello''), createdAt = 100\<rparr>,
                 Fetch 0,
                 CompletionReturned (JStr (lit ''hi'')),
                 Created \<lparr>msg_userId = JStr (lit ''u1''), msg_role = RAssistant,
                    msg_content = JStr (lit ''hi''), createdAt = 101\<rparr>]\<rparr>"
proof -
  let ?env = "scripted [Inr ok_response] no_failure"
  have c: "body_content hello_request = JStr (lit ''hello'')"
    by (simp add: body_content_def hello_request_def hello_def)
  have u: "userId hello_request = JStr (lit ''u1'')" by (simp add: hello_request_def)
  have h2: "js_trim (lit ''hello'') \<noteq> []" by (simp add: trim_hello)
  have h3: "create_failure ?env 0 = None" by (simp add: scripted_store no_failure_def)
  have h4: "create_failure ?env 1 = None" by (simp add: scripted_store no_failure_def)
  have run: "callGeminiAPI ?env (make_payload (body_content hello_request))
               = (Inr (JStr (lit ''hi'')), [Fetch 0])"
    using hello_run[of no_failure] by (simp add: c hello_def)
  then have h5: "fst (callGeminiAPI ?env (make_payload (body_content hello_request)))
                   = Inr (JStr (lit ''hi''))" by simp
  from successful_turn[OF c h2 h3 h4 h5, of "[]"] run
  have "sendPromt ?env [] hello_request =
       \<lparr>outcome = Responded (HttpResponse 200 (JObj [(lit ''reply'', JStr (lit ''hi''))])),
        store = [\<lparr>msg_userId = JStr (lit ''u1''), msg_role = RUser,
                   msg_content = JStr (lit ''hello''), createdAt = 100\<rparr>,
                 \<lparr>msg_userId = JStr (lit ''u1''), msg_role = RAssistant,
                   msg_content = JStr (lit ''hi''), createdAt = 101\<rparr>],
        trace = [Created \<lparr>msg_userId = JStr (lit ''u1''), msg_role = RUser,
                    msg_content = JStr (lit ''hello''), createdAt = 100\<rparr>,
                 Fetch 0,
                 CompletionReturned (JStr (lit ''hi'')),
                 Created \<lparr>msg_userId = JStr (lit ''u1''), msg_role = RAssistant,
                    msg_content = JStr (lit ''hi''), createdAt = 101\<rparr>]\<rparr>"
    by (simp add: c u scripted_store)
  with c h2 h3 h4 h5 show ?thesis by (intro conjI)
qed

text \<open>
  C6 (amended): when the request has a parsed body (\<open>req.body\<close> is neither \<open>undefined\<close> nor
  \<open>null\<close>) and its content is missing, or is a string that is blank after trimming, the
  handler answers 400 with an \<open>errors\<close> field, leaves the store as it was, and performs
  no effect at all: no store write and no completion call.
\<close>

theorem blank_content_rejected:
  assumes "\<not> nullish (body req)"
      and "body_content req = JUndefined \<or> (\<exists>s. body_content req = JStr s \<and> js_trim s = [])"
  shows "sendPromt env db req =
           \<lparr>outcome = Responded (HttpResponse 400
               (JObj [(lit ''errors'', JStr (lit ''Promt content is required''))])),
            store = db, trace = []\<rparr>"
  using assms(2)
  by (auto simp: sendPromt_parsed[OF assms(1)] call_trim_def validation_response_def)

theorem blank_content_rejected_witness:
  "\<not> nullish (body blank_request)
   \<and> (body_content blank_request = JUndefined
      \<or> (\<exists>s. body_content blank_request = JStr s \<and> js_trim s = []))
   \<and> sendPromt (scripted [Inr ok_response] no_failure) [] blank_request =
       \<lparr>outcome = Responded (HttpResponse 400
           (JObj [(lit ''errors'', JStr (lit ''Promt content is required''))])),
        store = [], trace = []\<rparr>"
proof -
  have h1: "\<not> nullish (body blank_request)" by (simp add: blank_request_def)
  have h2: "body_content blank_request = JUndefined
             \<or> (\<exists>s. body_content blank_request = JStr s \<and> js_trim s = [])"
    by (simp add: body_content_def blank_request_def trim_blank)
  from blank_content_rejected[OF h1 h2] h1 h2 show ?thesis by simp
qed

text \<open>
  C6 as stated fails: a request without a parsed body has no content, and the handler
  answers nothing: reading \<open>content\<close> off \<open>req.body\<close> throws a TypeError before the
  validation.
\<close>

theorem missing_body_not_rejected:
  "body no_body_request = JUndefined
   \<and> body_content no_body_request = JUndefined
   \<and> sendPromt (scripted [Inr ok_response] no_failure) [] no_body_request =
       \<lparr>outcome = Rejected (JsError TypeErrorC
           (lit ''Cannot destructure property content of req.body'')),
        store = [], trace = []\<rparr>"
  by (simp add: sendPromt_def destructure_content_def body_content_def no_body_request_def
        scripted_def)


lemma busy_run:
  "callGeminiAPI (scripted always_busy fails) (make_payload hello)
     = (Inl (retries_exhausted_error 429 (lit ''busy'')),
        [Fetch 0, Wait 1250, Fetch 1, Wait 2250, Fetch 2, Wait 4250, Fetch 3, Wait 8250, Fetch 4])"
  by (simp add: run_simps always_busy_def)





text \<open>
  C8: when the user's message was written and the completion returned but the write of
  the assistant's message failed, the handler answers 500 and the store holds what it
  held before followed by the user's message: nothing is rolled back.
\<close>

theorem orphaned_user_turn:
  assumes "CompletionReturned v \<in> set (trace (sendPromt env db req))"
      and "CreateFailed e \<in> set (trace (sendPromt env db req))"
  shows "(\<exists>body. outcome (sendPromt env db req) = Responded (HttpResponse 500 body))
         \<and> Created \<lparr>msg_userId = userId req, msg_role = RUser, msg_content = body_content req,
                     createdAt = store_clock env 0\<rparr> \<in> set (trace (sendPromt env db req))
         \<and> store (sendPromt env db req) =
             db @ [\<lparr>msg_userId = userId req, msg_role = RUser, msg_content = body_content req,
                     createdAt = store_clock env 0\<rparr>]"
proof (cases rule: sendPromt_cases[of env db req])
  case Invalid
  with assms(1) show ?thesis by simp
next
  case (Threw e')
  with assms(1) show ?thesis by simp
next
  case (Ran s)
  show ?thesis
  proof (cases rule: handler_try_cases[of env db "body_content req" "userId req"])
    case (UserWriteFailed e')
    with Ran(4) assms(1) show ?thesis by simp
  next
    case (CompletionFailed e' tr)
    with Ran(4) assms(1)
      callGeminiAPI_only_attempts[OF CompletionFailed(1), of "CompletionReturned v"]
    show ?thesis by auto
  next
    case (AssistantWriteFailed e' v' tr)
    with Ran(4) show ?thesis by (simp add: server_error_response_def)
  next
    case (Succeeded v' tr)
    with Ran(4) assms(2)
      callGeminiAPI_only_attempts[OF Succeeded(1), of "CreateFailed e"]
    show ?thesis by auto
  qed
qed

theorem orphaned_user_turn_witness:
  "CompletionReturned (JStr (lit ''hi''))
     \<in> set (trace (sendPromt (scripted [Inr ok_response] second_create_fails) [] hello_request))
   \<and> CreateFailed storage_error
     \<in> set (trace (sendPromt (scripted [Inr ok_response] second_create_fails) [] hello_request))
   \<and> (\<exists>body. outcome (sendPromt (scripted [Inr ok_response] second_create_fails) [] hello_request)
         = Responded (HttpResponse 500 body))
   \<and> store (sendPromt (scripted [Inr ok_response] second_create_fails) [] hello_request) =
       [\<lparr>msg_userId = JStr (lit ''u1''), msg_role = RUser, msg_content = JStr (lit ''hello''),
          createdAt = 100\<rparr>]"
proof -
  let ?r = "sendPromt (scripted [Inr ok_response] second_create_fails) [] hello_request"
  have h1: "CompletionReturned (JStr (lit ''hi'')) \<in> set (trace ?r)"
    by (simp add: hello_turn_store_down)
  have h2: "CreateFailed storage_error \<in> set (trace ?r)"
    by (simp add: hello_turn_store_down)
  from orphaned_user_turn[OF h1 h2] h1 h2 show ?thesis
    by (simp add: body_content_def hello_request_def hello_def scripted_store)
qed

text \<open>
  C10: when the content is truthy and not a string, \<open>content.trim()\<close> throws a TypeError
  outside the handler's \<open>try\<close> block: the handler's promise rejects with it, and neither
  the 400 nor the 500 response is sent, nor is anything else done.
\<close>

theorem non_string_content_throws:
  assumes "truthy (body_content req)" and "\<not> is_string (body_content req)"
  shows "sendPromt env db req =
           \<lparr>outcome = Rejected (JsError TypeErrorC (not_a_function_message env)),
            store = db, trace = []\<rparr>"
  using assms
  by (cases "body_content req")
     (simp_all add: sendPromt_parsed[OF truthy_content_parsed[OF assms(1)]] call_trim_def)

theorem non_string_content_throws_witness:
  "truthy (body_content number_request) \<and> \<not> is_string (body_content number_request)
   \<and> sendPromt (scripted [Inr ok_response] no_failure) [] number_request =
       \<lparr>outcome = Rejected (JsError TypeErrorC (lit ''content.trim is not a function'')),
        store = [], trace = []\<rparr>"
proof -
  have h1: "truthy (body_content number_request)"
    by (simp add: body_content_def number_request_def)
  have h2: "\<not> is_string (body_content number_request)"
    by (simp add: body_content_def number_request_def)
  from non_string_content_throws[OF h1 h2] h1 h2 show ?thesis
    by (simp add: scripted_store)
qed

section \<open>Further properties of the retry loop\<close>

lemma iteration_retryable_result:
  "retryable_response (attempt env p i) \<Longrightarrow> i < MAX_RETRIES - 1 \<Longrightarrow>
   iteration env p i = (Next, [Fetch i, Wait (backoff_delay env i)])"
  using iteration_retryable[of env p i] iteration_trace[of env p i]
  by (cases "iteration env p i") simp

lemma backoff_delay_bounds:
  assumes "is_double (random env i)" and "0 \<le> random env i" and "random env i < 1" and "i < 4"
  shows "2 ^ i * 1000 \<le> backoff_delay env i \<and> backoff_delay env i \<le> 2 ^ i * 1000 + 500"
proof -
  from jitter_bounds[OF assms(1-3)]
  have j: "0 \<le> fmul (random env i) 500" "fmul (random env i) 500 < 500" by simp_all
  from delay_bounds[OF assms(4) j] show ?thesis
    by (simp add: backoff_delay_def base_exact[OF assms(4)])
qed

lemma backoff_delay_nonneg: "0 \<le> random env i \<Longrightarrow> 0 \<le> backoff_delay env i"
proof -
  assume "0 \<le> random env i"
  then have "0 \<le> fmul (random env i) 500" unfolding fmul_def by (intro fl_nonneg) simp
  moreover have "0 \<le> fmul (2 ^ i) 1000" unfolding fmul_def by (intro fl_nonneg) simp
  ultimately show ?thesis unfolding backoff_delay_def fadd_def by (intro fl_nonneg) simp
qed

text \<open>
  After four responses with status 429 or 5xx and a fifth, successful response with text,
  the call returns that text on the fifth attempt, and the time waited is the sum of the
  four delays, from 15 to 17 seconds.
\<close>

theorem succeeds_on_fifth_attempt:
  assumes "\<forall>i. is_double (random env i) \<and> 0 \<le> random env i \<and> random env i < 1"
      and "list_all (\<lambda>i. retryable_response (attempt env payload i)) [0..<4]"
      and "attempt env payload 4 = Inr r" and "ok r"
      and "body_json r = Inr result" and "extract_text env result = Inr aiContent"
      and "truthy aiContent"
  shows "callGeminiAPI env payload =
           (Inr aiContent,
            [Fetch 0, Wait (backoff_delay env 0), Fetch 1, Wait (backoff_delay env 1),
             Fetch 2, Wait (backoff_delay env 2), Fetch 3, Wait (backoff_delay env 3), Fetch 4])
         \<and> total_wait (snd (callGeminiAPI env payload)) =
             backoff_delay env 0 + backoff_delay env 1 + backoff_delay env 2 + backoff_delay env 3
         \<and> 15000 \<le> total_wait (snd (callGeminiAPI env payload))
         \<and> total_wait (snd (callGeminiAPI env payload)) \<le> 17000"
proof -
  have r: "retryable_response (attempt env payload 0)" "retryable_response (attempt env payload 1)"
          "retryable_response (attempt env payload 2)" "retryable_response (attempt env payload 3)"
    using assms(2) by (simp_all add: list_all_iff)
  have i0: "iteration env payload 0 = (Next, [Fetch 0, Wait (backoff_delay env 0)])"
    using r(1) by (intro iteration_retryable_result) (simp_all add: MAX_RETRIES_def)
  have i1: "iteration env payload (Suc 0) = (Next, [Fetch 1, Wait (backoff_delay env 1)])"
    using r(2) iteration_retryable_result[of env payload 1] by (simp add: MAX_RETRIES_def)
  have i2: "iteration env payload (Suc (Suc 0)) = (Next, [Fetch 2, Wait (backoff_delay env 2)])"
    using r(3) iteration_retryable_result[of env payload 2]
    by (simp add: MAX_RETRIES_def numeral_2_eq_2)
  have i3: "iteration env payload (Suc (Suc (Suc 0))) = (Next, [Fetch 3, Wait (backoff_delay env 3)])"
    using r(4) iteration_retryable_result[of env payload 3]
    by (simp add: MAX_RETRIES_def numeral_3_eq_3)
  have "\<not> retryable_status (status r)" using assms(4) by (simp add: ok_def retryable_status_def)
  then have "iteration env payload 4 = (Return aiContent, [Fetch 4])"
    using assms(3-7) by (simp add: iteration_def try_block_def)
  then have i4: "iteration env payload (Suc (Suc (Suc (Suc 0)))) = (Return aiContent, [Fetch 4])"
    by (simp add: eval_nat_numeral)
  have run: "callGeminiAPI env payload =
           (Inr aiContent,
            [Fetch 0, Wait (backoff_delay env 0), Fetch 1, Wait (backoff_delay env 1),
             Fetch 2, Wait (backoff_delay env 2), Fetch 3, Wait (backoff_delay env 3), Fetch 4])"
    by (simp add: callGeminiAPI_def for_loop_step MAX_RETRIES_def i0 i1 i2 i3 i4)
  have tw: "total_wait (snd (callGeminiAPI env payload)) =
             backoff_delay env 0 + backoff_delay env 1 + backoff_delay env 2 + backoff_delay env 3"
    by (simp add: run total_wait_def)
  from assms(1)
  have "\<And>i. i < 4 \<Longrightarrow> 2 ^ i * 1000 \<le> backoff_delay env i \<and> backoff_delay env i \<le> 2 ^ i * 1000 + 500"
    by (simp add: backoff_delay_bounds)
  from this[of 0] this[of 1] this[of 2] this[of 3] tw
  have "15000 \<le> total_wait (snd (callGeminiAPI env payload))
        \<and> total_wait (snd (callGeminiAPI env payload)) \<le> 17000"
    by simp
  with run tw show ?thesis by blast
qed

theorem succeeds_on_fifth_attempt_witness:
  "(\<forall>i. is_double (random (scripted busy_then_ok no_failure) i)
        \<and> 0 \<le> random (scripted busy_then_ok no_failure) i
        \<and> random (scripted busy_then_ok no_failure) i < 1)
   \<and> list_all (\<lambda>i. retryable_response (attempt (scripted busy_then_ok no_failure) (make_payload hello) i))
        [0..<4]
   \<and> attempt (scripted busy_then_ok no_failure) (make_payload hello) 4 = Inr ok_response
   \<and> ok ok_response \<and> body_json ok_response = Inr generated
   \<and> extract_text (scripted busy_then_ok no_failure) generated = Inr (JStr (lit ''hi''))
   \<and> truthy (JStr (lit ''hi''))
   \<and> callGeminiAPI (scripted busy_then_ok no_failure) (make_payload hello) =
       (Inr (JStr (lit ''hi'')),
        [Fetch 0, Wait 1250, Fetch 1, Wait 2250, Fetch 2, Wait 4250, Fetch 3, Wait 8250, Fetch 4])
   \<and> total_wait (snd (callGeminiAPI (scripted busy_then_ok no_failure) (make_payload hello))) = 16000"
proof -
  let ?env = "scripted busy_then_ok no_failure"
  have h1: "\<forall>i. is_double (random ?env i) \<and> 0 \<le> random ?env i \<and> random ?env i < 1"
    by (simp add: scripted_random half_is_double)
  have h2: "list_all (\<lambda>i. retryable_response (attempt ?env (make_payload hello) i)) [0..<4]"
    by (simp add: upt_rec scripted_attempt busy_then_ok_def too_many_requests_def
          retryable_status_def)
  have h3: "attempt ?env (make_payload hello) 4 = Inr ok_response"
    by (simp add: scripted_attempt busy_then_ok_def)
  have h4: "ok ok_response" by (simp add: ok_def ok_response_def)
  have h5: "body_json ok_response = Inr generated" by (simp add: ok_response_def)
  have h6: "extract_text ?env generated = Inr (JStr (lit ''hi''))" by (rule extract_generated)
  have h7: "truthy (JStr (lit ''hi''))" by simp
  have d: "backoff_delay ?env 0 = 1250" "backoff_delay ?env 1 = 2250"
          "backoff_delay ?env 2 = 4250" "backoff_delay ?env 3 = 8250"
    by (simp_all add: backoff_delay_def scripted_random half_delays)
  note res = succeeds_on_fifth_attempt[OF h1 h2 h3 h4 h5 h6 h7]
  have c1: "callGeminiAPI ?env (make_payload hello) =
       (Inr (JStr (lit ''hi'')),
        [Fetch 0, Wait 1250, Fetch 1, Wait 2250, Fetch 2, Wait 4250, Fetch 3, Wait 8250, Fetch 4])"
    using res d by simp
  have c2: "total_wait (snd (callGeminiAPI ?env (make_payload hello))) = 16000"
    by (simp add: c1 total_wait_def)
  show ?thesis
    by (intro conjI h1 h2 h3 h4 h5 h6 h7 c1 c2)
qed

lemma total_wait_append: "total_wait (xs @ ys) = total_wait xs + total_wait ys"
  by (simp add: total_wait_def)

lemma total_wait_iteration:
  "total_wait (snd (iteration env p i)) =
     (if retryable_response (attempt env p i) \<and> i < MAX_RETRIES - 1 then backoff_delay env i else 0)"
  by (simp add: iteration_trace total_wait_def)

lemma for_loop_total_wait:
  "i < MAX_RETRIES \<Longrightarrow> (\<forall>k. 0 \<le> backoff_delay env k) \<Longrightarrow>
   0 \<le> total_wait (snd (for_loop env p i)) \<and>
   total_wait (snd (for_loop env p i)) \<le> (\<Sum>k = i..<MAX_RETRIES - 1. backoff_delay env k)"
proof (induction env p i rule: for_loop.induct)
  case (1 env p i)
  obtain x tr where it: "iteration env p i = (x, tr)" by (cases "iteration env p i")
  have nonneg: "\<And>k. 0 \<le> backoff_delay env k" using 1(3) by simp
  have rest_nonneg: "0 \<le> (\<Sum>k = Suc i..<MAX_RETRIES - 1. backoff_delay env k)"
    by (rule sum_nonneg) (simp add: nonneg)
  have tw: "total_wait tr =
     (if retryable_response (attempt env p i) \<and> i < MAX_RETRIES - 1 then backoff_delay env i else 0)"
    using total_wait_iteration[of env p i] it by simp
  show ?case
  proof (cases "x = Next")
    case False
    then have fl: "for_loop env p i = (x, tr)"
      using 1(2) it by (cases x) (simp_all add: for_loop_step)
    have "\<not> (retryable_response (attempt env p i) \<and> i < MAX_RETRIES - 1)"
      using iteration_retryable[of env p i] it False by auto
    then have "total_wait tr = 0" using tw by auto
    moreover have "0 \<le> (\<Sum>k = i..<MAX_RETRIES - 1. backoff_delay env k)"
      by (rule sum_nonneg) (simp add: nonneg)
    ultimately show ?thesis using fl by simp
  next
    case True
    have "i \<noteq> MAX_RETRIES - 1" using iteration_last[of i env p] it True by auto
    then have lt: "Suc i < MAX_RETRIES" using 1(2) by simp
    then have lt': "i < MAX_RETRIES - 1" by simp
    obtain y tr' where rest: "for_loop env p (Suc i) = (y, tr')" by (cases "for_loop env p (Suc i)")
    have fl: "for_loop env p i = (y, tr @ tr')"
      using 1(2) it True rest by (simp add: for_loop_step)
    from 1(1)[OF 1(2) it[symmetric] True lt 1(3)] rest
    have ih: "0 \<le> total_wait tr'"
             "total_wait tr' \<le> (\<Sum>k = Suc i..<MAX_RETRIES - 1. backoff_delay env k)"
      by simp_all
    have hd: "0 \<le> total_wait tr" "total_wait tr \<le> backoff_delay env i"
      using tw nonneg[of i] by (simp_all split: if_splits)
    have "(\<Sum>k = i..<MAX_RETRIES - 1. backoff_delay env k) =
            backoff_delay env i + (\<Sum>k = Suc i..<MAX_RETRIES - 1. backoff_delay env k)"
      using lt' by (rule sum.atLeast_Suc_lessThan)
    then show ?thesis using fl ih hd by (simp add: total_wait_append)
  qed
qed

text \<open>
  Whatever the outcomes, the time a call spends waiting is at most 17 seconds: at most
  four waits, of at most 1, 2, 4 and 8 seconds plus half a second each.
\<close>

theorem total_wait_bounded:
  assumes "\<forall>i. is_double (random env i) \<and> 0 \<le> random env i \<and> random env i < 1"
  shows "0 \<le> total_wait (snd (callGeminiAPI env payload))
         \<and> total_wait (snd (callGeminiAPI env payload)) \<le> 17000"
proof -
  have b: "\<And>i. i < 4 \<Longrightarrow> backoff_delay env i \<le> 2 ^ i * 1000 + 500"
    using assms by (simp add: backoff_delay_bounds)
  have nonneg: "\<forall>k. 0 \<le> backoff_delay env k"
    using assms by (simp add: backoff_delay_nonneg)
  have pos: "0 < MAX_RETRIES" by (simp add: MAX_RETRIES_def)
  have "(\<Sum>k = 0..<MAX_RETRIES - 1. backoff_delay env k) =
          backoff_delay env 0 + backoff_delay env 1 + backoff_delay env 2 + backoff_delay env 3"
    by (simp add: MAX_RETRIES_def eval_nat_numeral)
  also have "\<dots> \<le> 17000" using b[of 0] b[of 1] b[of 2] b[of 3] by simp
  finally have "(\<Sum>k = 0..<MAX_RETRIES - 1. backoff_delay env k) \<le> 17000" .
  with for_loop_total_wait[OF pos nonneg, of payload] show ?thesis
    by (simp add: callGeminiAPI_trace)
qed

theorem total_wait_bounded_witness:
  "(\<forall>i. is_double (random (scripted always_busy no_failure) i)
        \<and> 0 \<le> random (scripted always_busy no_failure) i
        \<and> random (scripted always_busy no_failure) i < 1)
   \<and> total_wait (snd (callGeminiAPI (scripted always_busy no_failure) (make_payload hello))) = 16000
   \<and> 0 \<le> total_wait (snd (callGeminiAPI (scripted always_busy no_failure) (make_payload hello)))
   \<and> total_wait (snd (callGeminiAPI (scripted always_busy no_failure) (make_payload hello))) \<le> 17000"
proof -
  let ?env = "scripted always_busy no_failure"
  have h: "\<forall>i. is_double (random ?env i) \<and> 0 \<le> random ?env i \<and> random ?env i < 1"
    by (simp add: scripted_random half_is_double)
  have e: "total_wait (snd (callGeminiAPI ?env (make_payload hello))) = 16000"
    by (simp add: busy_run total_wait_def)
  from total_wait_bounded[OF h, of "make_payload hello"] h e show ?thesis by blast
qed

text \<open>
  The sum of the two terms of a delay is rounded: with the largest value
  \<open>Math.random()\<close> can return when it yields multiples of \<open>2 ^ -52\<close>, the jitter is below
  500 and the first delay is exactly 1500.
\<close>

theorem delay_rounds_to_upper_bound:
  "is_double (1 - 1 / 2 ^ 52)
   \<and> fmul (1 - 1 / 2 ^ 52) 500 = 500 - 1 / 2 ^ 43
   \<and> fadd (fmul (2 ^ 0) 1000) (fmul (1 - 1 / 2 ^ 52) 500) = 1500"
  using largest_random_is_double largest_jitter largest_delay by (intro conjI)

section \<open>Further properties of the failure paths\<close>

lemma js_includes_prefix: "prefix t s \<Longrightarrow> js_includes s t"
  by (cases s) simp_all

text \<open>
  The substring search of the model agrees with the library's notion of a contiguous
  sublist.
\<close>

theorem js_includes_sublist: "js_includes s t = sublist t s"
  by (induction s) (simp_all add: sublist_Cons_right)

text \<open>
  Every error that \<open>callGeminiAPI\<close> constructs itself is recognised by the handler, which
  passes its message on; a transport failure rethrown by the last iteration is not, and
  is reported with the generic message.
\<close>

theorem own_errors_recognised:
  "errorMessage (client_error s txt) = message (client_error s txt)
   \<and> errorMessage (retries_exhausted_error s txt) = message (retries_exhausted_error s txt)
   \<and> errorMessage content_missing_error = message content_missing_error
   \<and> errorMessage fallback_error = message fallback_error
   \<and> errorMessage network_error = generic_message"
proof -
  have p: "\<And>rest. js_includes (lit ''Gemini API'' @ rest) (lit ''Gemini API'')"
    by (rule js_includes_prefix) simp
  have "client_error s txt = JsError ErrorC (lit ''Gemini API'' @ lit '' Client Error: '' @ dec s @ lit '' - '' @ txt)"
    by (simp add: client_error_def lit_def)
  then have 1: "errorMessage (client_error s txt) = message (client_error s txt)"
    by (simp add: errorMessage_def p)
  have "retries_exhausted_error s txt =
          JsError ErrorC (lit ''Gemini API'' @ lit '' call failed after '' @ dec MAX_RETRIES
            @ lit '' attempts. Status: '' @ dec s @ lit ''. Body: '' @ txt)"
    by (simp add: retries_exhausted_error_def lit_def)
  then have 2: "errorMessage (retries_exhausted_error s txt) = message (retries_exhausted_error s txt)"
    by (simp add: errorMessage_def p)
  have 3: "errorMessage content_missing_error = message content_missing_error"
    by (simp add: errorMessage_def content_missing_error_def lit_def)
  have 4: "errorMessage fallback_error = message fallback_error"
    by (simp add: errorMessage_def fallback_error_def lit_def)
  have 5: "errorMessage network_error = generic_message"
    by (simp add: errorMessage_def network_error_def lit_def)
  from 1 2 3 4 5 show ?thesis by blast
qed

text \<open>
  What the \<open>catch\<close> block does with an error thrown in the \<open>try\<close> block: it rethrows it in
  the last iteration only, and in every earlier iteration drops it and lets the loop go
  on, without a wait.
\<close>

theorem thrown_error_dropped_before_last_iteration:
  assumes "try_block env payload i = (Throw e, tr)"
  shows "iteration env payload i = (if i = MAX_RETRIES - 1 then Throw e else Next, tr)"
  using assms by (simp add: iteration_def)

theorem thrown_error_dropped_before_last_iteration_witness:
  "try_block (scripted [Inr bad_request, Inr ok_response] no_failure) (make_payload hello) 0
     = (Throw (client_error 400 (lit ''{}'')), [Fetch 0])
   \<and> iteration (scripted [Inr bad_request, Inr ok_response] no_failure) (make_payload hello) 0
     = (Next, [Fetch 0])"
proof -
  have h: "try_block (scripted [Inr bad_request, Inr ok_response] no_failure) (make_payload hello) 0
     = (Throw (client_error 400 (lit ''{}'')), [Fetch 0])"
    by (simp add: run_simps)
  from thrown_error_dropped_before_last_iteration[OF h] h show ?thesis
    by (simp add: MAX_RETRIES_def)
qed

text \<open>
  With a parsed body, every content that is not truthy (\<open>undefined\<close>, \<open>null\<close>, \<open>false\<close>,
  \<open>0\<close>, \<open>NaN\<close>, the empty string) is answered with the 400 response and no effect.
\<close>

theorem falsy_content_rejected:
  assumes "\<not> nullish (body req)" and "\<not> truthy (body_content req)"
  shows "sendPromt env db req =
           \<lparr>outcome = Responded (HttpResponse 400
               (JObj [(lit ''errors'', JStr (lit ''Promt content is required''))])),
            store = db, trace = []\<rparr>"
  using assms(2) by (simp add: sendPromt_parsed[OF assms(1)] validation_response_def)

theorem falsy_content_rejected_witness:
  "\<not> nullish (body \<lparr>body = JObj [(lit ''content'', JNull)], userId = JUndefined\<rparr>)
   \<and> \<not> truthy (body_content \<lparr>body = JObj [(lit ''content'', JNull)], userId = JUndefined\<rparr>)
   \<and> sendPromt (scripted [] no_failure) []
        \<lparr>body = JObj [(lit ''content'', JNull)], userId = JUndefined\<rparr> =
       \<lparr>outcome = Responded (HttpResponse 400
           (JObj [(lit ''errors'', JStr (lit ''Promt content is required''))])),
        store = [], trace = []\<rparr>"
proof -
  let ?req = "\<lparr>body = JObj [(lit ''content'', JNull)], userId = JUndefined\<rparr>"
  have h1: "\<not> nullish (body ?req)" by simp
  have h2: "\<not> truthy (body_content ?req)" by (simp add: body_content_def)
  from falsy_content_rejected[OF h1 h2] h1 h2 show ?thesis by blast
qed


end
